theory Spec2Isabelle
  imports Complex_Main
begin

section \<open>Numeric values of a pandas column\<close>

text \<open>
  The columns of \<^verbatim>\<open>self.signals\<close> hold IEEE doubles. The model keeps the three special
  values the program's behaviour depends on (not-a-number and the two infinities) and takes
  every finite value as an exact real number: rounding and the sign of zero are not modelled.
\<close>

datatype fl = NaN | PInf | NInf | Fin real

fun fneg :: "fl \<Rightarrow> fl" where
  "fneg NaN = NaN"
| "fneg PInf = NInf"
| "fneg NInf = PInf"
| "fneg (Fin x) = Fin (- x)"

fun fadd :: "fl \<Rightarrow> fl \<Rightarrow> fl" where
  "fadd (Fin x) (Fin y) = Fin (x + y)"
| "fadd NaN b = NaN"
| "fadd a NaN = NaN"
| "fadd PInf NInf = NaN"
| "fadd NInf PInf = NaN"
| "fadd PInf b = PInf"
| "fadd NInf b = NInf"
| "fadd a PInf = PInf"
| "fadd a NInf = NInf"

definition fsub :: "fl \<Rightarrow> fl \<Rightarrow> fl" where
  "fsub a b = fadd a (fneg b)"

definition signed_inf :: "real \<Rightarrow> fl" where
  "signed_inf s = (if s = 0 then NaN else if 0 < s then PInf else NInf)"

fun fmul :: "fl \<Rightarrow> fl \<Rightarrow> fl" where
  "fmul (Fin x) (Fin y) = Fin (x * y)"
| "fmul NaN b = NaN"
| "fmul a NaN = NaN"
| "fmul PInf (Fin y) = signed_inf y"
| "fmul NInf (Fin y) = signed_inf (- y)"
| "fmul (Fin x) PInf = signed_inf x"
| "fmul (Fin x) NInf = signed_inf (- x)"
| "fmul PInf PInf = PInf"
| "fmul PInf NInf = NInf"
| "fmul NInf PInf = NInf"
| "fmul NInf NInf = PInf"

fun fdiv :: "fl \<Rightarrow> fl \<Rightarrow> fl" where
  "fdiv (Fin x) (Fin y) = (if y = 0 then signed_inf x else Fin (x / y))"
| "fdiv NaN b = NaN"
| "fdiv a NaN = NaN"
| "fdiv (Fin x) PInf = Fin 0"
| "fdiv (Fin x) NInf = Fin 0"
| "fdiv PInf (Fin y) = (if 0 \<le> y then PInf else NInf)"
| "fdiv NInf (Fin y) = (if 0 \<le> y then NInf else PInf)"
| "fdiv PInf b = NaN"
| "fdiv NInf b = NaN"

fun fsqrt :: "fl \<Rightarrow> fl" where
  "fsqrt (Fin x) = (if x < 0 then NaN else Fin (sqrt x))"
| "fsqrt PInf = PInf"
| "fsqrt NInf = NaN"
| "fsqrt NaN = NaN"

text \<open>Comparisons: every comparison with not-a-number is false, except \<^verbatim>\<open>!=\<close>.\<close>

fun flt :: "fl \<Rightarrow> fl \<Rightarrow> bool" where
  "flt (Fin x) (Fin y) = (x < y)"
| "flt NaN b = False"
| "flt a NaN = False"
| "flt a NInf = False"
| "flt PInf b = False"
| "flt NInf b = True"
| "flt a PInf = True"

fun fle :: "fl \<Rightarrow> fl \<Rightarrow> bool" where
  "fle (Fin x) (Fin y) = (x \<le> y)"
| "fle NaN b = False"
| "fle a NaN = False"
| "fle NInf b = True"
| "fle a PInf = True"
| "fle a NInf = False"
| "fle PInf b = False"

definition fgt :: "fl \<Rightarrow> fl \<Rightarrow> bool" where
  "fgt a b = flt b a"

definition fge :: "fl \<Rightarrow> fl \<Rightarrow> bool" where
  "fge a b = fle b a"

definition fne :: "fl \<Rightarrow> fl \<Rightarrow> bool" where
  "fne a b = (if a = NaN then True else if b = NaN then True else a \<noteq> b)"

definition fmax :: "fl \<Rightarrow> fl \<Rightarrow> fl" where
  "fmax a b = (if flt a b then b else a)"

definition fmin :: "fl \<Rightarrow> fl \<Rightarrow> fl" where
  "fmin a b = (if flt b a then b else a)"

section \<open>The pandas operations the strategies use\<close>

datatype error = ValueError | IndexError

type_synonym series = "fl list"

definition bindE :: "error + 'a \<Rightarrow> ('a \<Rightarrow> error + 'b) \<Rightarrow> error + 'b" where
  "bindE m f = (case m of Inl e \<Rightarrow> Inl e | Inr x \<Rightarrow> f x)"

text \<open>\<^verbatim>\<open>s.shift(1)\<close>: every value moves one row down, the first row becomes not-a-number.\<close>

definition shift1 :: "series \<Rightarrow> series" where
  "shift1 xs = take (length xs) (NaN # xs)"

text \<open>\<^verbatim>\<open>s.diff()\<close> is \<^verbatim>\<open>s - s.shift(1)\<close>.\<close>

definition diff_s :: "series \<Rightarrow> series" where
  "diff_s xs = map2 fsub xs (shift1 xs)"

text \<open>\<^verbatim>\<open>s.pct_change()\<close> is \<^verbatim>\<open>s / s.shift(1) - 1\<close> on a column without missing values.\<close>

definition pct_change :: "series \<Rightarrow> series" where
  "pct_change xs = map2 (\<lambda>p q. fsub (fdiv p q) (Fin 1)) xs (shift1 xs)"

text \<open>
  \<^verbatim>\<open>s.rolling(window=w).mean()\<close>: pandas raises ValueError for a negative window; a row has
  a value once \<^verbatim>\<open>w\<close> observations, none of them missing, end at it (\<^verbatim>\<open>min_periods\<close> is the
  window), and an empty window (\<^verbatim>\<open>w = 0\<close>) has no value.
\<close>

definition window_at :: "nat \<Rightarrow> series \<Rightarrow> nat \<Rightarrow> series" where
  "window_at w xs i = take w (drop (Suc i - w) xs)"

definition rolling_mean_at :: "nat \<Rightarrow> series \<Rightarrow> nat \<Rightarrow> fl" where
  "rolling_mean_at w xs i =
     (if w = 0 then NaN
      else if Suc i < w then NaN
      else if NaN \<in> set (window_at w xs i) then NaN
      else fdiv (foldl fadd (Fin 0) (window_at w xs i)) (Fin (real w)))"

definition rolling_mean :: "int \<Rightarrow> series \<Rightarrow> error + series" where
  "rolling_mean w xs =
     (if w < 0 then Inl ValueError
      else Inr (map (rolling_mean_at (nat w) xs) [0..<length xs]))"

text \<open>\<^verbatim>\<open>s.where(cond, other)\<close> keeps a value where the condition holds.\<close>

definition where_s :: "(fl \<Rightarrow> bool) \<Rightarrow> fl \<Rightarrow> series \<Rightarrow> series" where
  "where_s c other xs = map (\<lambda>x. if c x then x else other) xs"

text \<open>\<^verbatim>\<open>df.loc[mask, col] = v\<close>.\<close>

definition loc_set :: "bool list \<Rightarrow> fl \<Rightarrow> series \<Rightarrow> series" where
  "loc_set ms v xs = map2 (\<lambda>m x. if m then v else x) ms xs"

definition fillna :: "fl \<Rightarrow> series \<Rightarrow> series" where
  "fillna v xs = map (\<lambda>x. if x = NaN then v else x) xs"

definition replace_s :: "fl \<Rightarrow> fl \<Rightarrow> series \<Rightarrow> series" where
  "replace_s old new xs = map (\<lambda>x. if x = old then new else x) xs"

text \<open>\<^verbatim>\<open>cumsum\<close> and \<^verbatim>\<open>cumprod\<close> skip a missing value: its row stays missing, the
  accumulator is unchanged.\<close>

fun cum_from :: "(fl \<Rightarrow> fl \<Rightarrow> fl) \<Rightarrow> fl \<Rightarrow> series \<Rightarrow> series" where
  "cum_from f acc [] = []"
| "cum_from f acc (x # xs) =
     (if x = NaN then NaN # cum_from f acc xs
      else f acc x # cum_from f (f acc x) xs)"

definition cumsum :: "series \<Rightarrow> series" where
  "cumsum xs = cum_from fadd (Fin 0) xs"

definition cumprod :: "series \<Rightarrow> series" where
  "cumprod xs = cum_from fmul (Fin 1) xs"

text \<open>
  The window operations of pandas replace an infinite value by a missing one before they
  compute (the rolling mean above is applied to the price and to the gain and loss columns
  only, which hold finite values).
\<close>

definition prep_values :: "series \<Rightarrow> series" where
  "prep_values xs = map (\<lambda>x. if x = PInf then NaN else if x = NInf then NaN else x) xs"

text \<open>\<^verbatim>\<open>s.expanding().max()\<close>: the largest value seen so far, missing values skipped.\<close>

fun expanding_max_from :: "fl \<Rightarrow> series \<Rightarrow> series" where
  "expanding_max_from acc [] = []"
| "expanding_max_from acc (x # xs) =
     (if x = NaN then acc # expanding_max_from acc xs
      else if acc = NaN then x # expanding_max_from x xs
      else fmax acc x # expanding_max_from (fmax acc x) xs)"

definition expanding_max :: "series \<Rightarrow> series" where
  "expanding_max xs = expanding_max_from NaN (prep_values xs)"

text \<open>The reductions \<^verbatim>\<open>min\<close>, \<^verbatim>\<open>mean\<close> and \<^verbatim>\<open>std\<close> (sample deviation, \<^verbatim>\<open>ddof = 1\<close>)
  drop the missing values first.\<close>

definition dropna :: "series \<Rightarrow> series" where
  "dropna xs = filter (\<lambda>x. x \<noteq> NaN) xs"

definition min_s :: "series \<Rightarrow> fl" where
  "min_s xs = (case dropna xs of [] \<Rightarrow> NaN | v # vs \<Rightarrow> foldl fmin v vs)"

definition sum_s :: "series \<Rightarrow> fl" where
  "sum_s xs = foldl fadd (Fin 0) (dropna xs)"

definition mean_s :: "series \<Rightarrow> fl" where
  "mean_s xs = fdiv (sum_s xs) (Fin (real (length (dropna xs))))"

definition std_s :: "series \<Rightarrow> fl" where
  "std_s xs =
     (let vs = dropna xs; n = length vs in
      if n < 2 then NaN
      else fsqrt (fdiv (sum_s (map (\<lambda>v. fmul (fsub v (mean_s xs)) (fsub v (mean_s xs))) vs))
                       (Fin (real (n - 1)))))"

section \<open>Strategies\<close>

type_synonym date = nat

text \<open>The frame \<^verbatim>\<open>self.signals\<close>: the columns of \<^verbatim>\<open>__init__\<close> and the ones added later
  (absent until the method that creates them has run).\<close>

record frame =
  index :: "date list"
  price :: series
  signal :: series
  position :: series
  short_ma :: "series option"
  long_ma :: "series option"
  rsi :: "series option"
  market_return :: "series option"
  strategy_return :: "series option"
  cumulative_market :: "series option"
  cumulative_strategy :: "series option"
  portfolio_value :: "series option"

datatype kind =
    SMA (short_window: int) (long_window: int)
  | RSI (rsi_period: int) (oversold: real) (overbought: real)
  | Combined (c_short_window: int) (c_long_window: int) (c_rsi_period: int)
             (c_oversold: real) (c_overbought: real)

record strategy =
  data :: "(date \<times> real) list"
  signals :: frame
  kind :: kind

text \<open>\<^verbatim>\<open>TradingStrategy.__init__\<close>: the frame takes the index and the closing prices of the
  data, and the constant columns \<^verbatim>\<open>signal = 0\<close>, \<^verbatim>\<open>position = 0\<close>.\<close>

definition init_frame :: "(date \<times> real) list \<Rightarrow> frame" where
  "init_frame d =
     \<lparr> index = map fst d,
       price = map (\<lambda>r. Fin (snd r)) d,
       signal = replicate (length d) (Fin 0),
       position = replicate (length d) (Fin 0),
       short_ma = None, long_ma = None, rsi = None,
       market_return = None, strategy_return = None,
       cumulative_market = None, cumulative_strategy = None,
       portfolio_value = None \<rparr>"

definition TradingStrategy_init :: "(date \<times> real) list \<Rightarrow> kind \<Rightarrow> strategy" where
  "TradingStrategy_init d k = \<lparr> data = d, signals = init_frame d, kind = k \<rparr>"

text \<open>The three constructors store their arguments and do nothing else.\<close>

definition SMAStrategy_init :: "(date \<times> real) list \<Rightarrow> int \<Rightarrow> int \<Rightarrow> error + strategy" where
  "SMAStrategy_init d sw lw = Inr (TradingStrategy_init d (SMA sw lw))"

definition RSIStrategy_init ::
  "(date \<times> real) list \<Rightarrow> int \<Rightarrow> real \<Rightarrow> real \<Rightarrow> error + strategy" where
  "RSIStrategy_init d p os ob = Inr (TradingStrategy_init d (RSI p os ob))"

definition CombinedStrategy_init ::
  "(date \<times> real) list \<Rightarrow> int \<Rightarrow> int \<Rightarrow> int \<Rightarrow> real \<Rightarrow> real \<Rightarrow> error + strategy" where
  "CombinedStrategy_init d sw lw p os ob = Inr (TradingStrategy_init d (Combined sw lw p os ob))"

subsection \<open>Indicators\<close>

text \<open>The relative strength index of lines 157 to 162 (and 201 to 205).\<close>

definition rsi_of_rs :: "fl \<Rightarrow> fl" where
  "rsi_of_rs rs = fsub (Fin 100) (fdiv (Fin 100) (fadd (Fin 1) rs))"

definition avg_gain :: "int \<Rightarrow> series \<Rightarrow> error + series" where
  "avg_gain p pr = rolling_mean p (where_s (\<lambda>d. fgt d (Fin 0)) (Fin 0) (diff_s pr))"

definition avg_loss :: "int \<Rightarrow> series \<Rightarrow> error + series" where
  "avg_loss p pr = rolling_mean p (map fneg (where_s (\<lambda>d. flt d (Fin 0)) (Fin 0) (diff_s pr)))"

definition compute_rsi :: "int \<Rightarrow> series \<Rightarrow> error + series" where
  "compute_rsi p pr =
     bindE (avg_gain p pr) (\<lambda>gain.
     bindE (avg_loss p pr) (\<lambda>loss.
     Inr (map rsi_of_rs (map2 fdiv gain loss))))"

subsection \<open>Signal generation\<close>

definition zeros :: "series \<Rightarrow> series" where
  "zeros xs = map (\<lambda>x. Fin 0) xs"

definition sma_raw :: "series \<Rightarrow> series \<Rightarrow> series" where
  "sma_raw sm lm =
     loc_set (map2 flt sm lm) (Fin (- 1))
       (loc_set (map2 fgt sm lm) (Fin 1) (zeros sm))"

definition rsi_signal :: "real \<Rightarrow> real \<Rightarrow> series \<Rightarrow> series" where
  "rsi_signal os ob r =
     loc_set (map2 (\<lambda>c p. fgt c (Fin ob) \<and> fle p (Fin ob)) r (shift1 r)) (Fin (- 1))
       (loc_set (map2 (\<lambda>c p. flt c (Fin os) \<and> fge p (Fin os)) r (shift1 r)) (Fin 1) (zeros r))"

definition combined_raw :: "real \<Rightarrow> real \<Rightarrow> series \<Rightarrow> series \<Rightarrow> series \<Rightarrow> series" where
  "combined_raw os ob sm lm r =
     loc_set (map2 (\<lambda>(s, l) c. flt s l \<or> fgt c (Fin ob)) (zip sm lm) r) (Fin (- 1))
       (loc_set (map2 (\<lambda>(s, l) c. fgt s l \<and> flt c (Fin os)) (zip sm lm) r) (Fin 1) (zeros sm))"

text \<open>\<^verbatim>\<open>generate_signals\<close> of the three subclasses, on the frame. The last two statements of
  the crossover variants (\<^verbatim>\<open>diff\<close>, then \<^verbatim>\<open>fillna(0, inplace=True)\<close> on the column) are
  taken as updating the frame.\<close>

definition gen_frame :: "kind \<Rightarrow> frame \<Rightarrow> error + frame" where
  "gen_frame k f =
     (case k of
        SMA sw lw \<Rightarrow>
          bindE (rolling_mean sw (price f)) (\<lambda>sm.
          bindE (rolling_mean lw (price f)) (\<lambda>lm.
          Inr (f\<lparr> short_ma := Some sm, long_ma := Some lm,
                  signal := fillna (Fin 0) (diff_s (sma_raw sm lm)) \<rparr>)))
      | RSI p os ob \<Rightarrow>
          bindE (compute_rsi p (price f)) (\<lambda>r.
          Inr (f\<lparr> rsi := Some r, signal := rsi_signal os ob r \<rparr>))
      | Combined sw lw p os ob \<Rightarrow>
          bindE (rolling_mean sw (price f)) (\<lambda>sm.
          bindE (rolling_mean lw (price f)) (\<lambda>lm.
          bindE (compute_rsi p (price f)) (\<lambda>r.
          Inr (f\<lparr> short_ma := Some sm, long_ma := Some lm, rsi := Some r,
                  signal := fillna (Fin 0) (diff_s (combined_raw os ob sm lm r)) \<rparr>)))))"

definition generate_signals :: "strategy \<Rightarrow> error + strategy" where
  "generate_signals s =
     bindE (gen_frame (kind s) (signals s)) (\<lambda>f. Inr (s\<lparr> signals := f \<rparr>))"

subsection \<open>Backtest\<close>

record backtest_result =
  total_return :: fl
  win_rate :: real
  max_drawdown :: fl
  sharpe_ratio :: fl
  final_value :: fl
  total_trades :: nat
  signals_df :: frame

text \<open>Line 44: \<^verbatim>\<open>signal.replace(-1, 0).cumsum()\<close>.\<close>

definition position_of :: "series \<Rightarrow> series" where
  "position_of sg = cumsum (replace_s (Fin (- 1)) (Fin 0) sg)"

text \<open>Line 48: \<^verbatim>\<open>position.shift(1) * market_return\<close>.\<close>

definition strategy_return_of :: "series \<Rightarrow> series \<Rightarrow> series" where
  "strategy_return_of pos mr = map2 fmul (shift1 pos) mr"

text \<open>Lines 51 and 52: \<^verbatim>\<open>(1 + r).cumprod()\<close>.\<close>

definition cumulative_of :: "series \<Rightarrow> series" where
  "cumulative_of r = cumprod (map (fadd (Fin 1)) r)"

text \<open>Lines 61 to 63.\<close>

definition winning_trades :: "series \<Rightarrow> nat" where
  "winning_trades sr = length (filter (\<lambda>r. fgt r (Fin 0)) sr)"

definition count_trades :: "series \<Rightarrow> nat" where
  "count_trades sg = length (filter (\<lambda>v. fne v (Fin 0)) sg)"

definition win_rate_of :: "series \<Rightarrow> series \<Rightarrow> real" where
  "win_rate_of sr sg =
     (if count_trades sg > 0
      then real (winning_trades sr) / real (count_trades sg) * 100
      else 0)"

text \<open>Lines 66 to 69.\<close>

definition drawdown_of :: "series \<Rightarrow> series" where
  "drawdown_of cs = map2 (\<lambda>c m. fdiv (fsub c m) m) cs (expanding_max cs)"

definition max_drawdown_of :: "series \<Rightarrow> fl" where
  "max_drawdown_of cs = fmul (min_s (drawdown_of cs)) (Fin 100)"

text \<open>Lines 72 to 74.\<close>

definition risk_free_rate :: real where
  "risk_free_rate = 6 / 100"

definition excess_returns_of :: "series \<Rightarrow> series" where
  "excess_returns_of sr = map (\<lambda>r. fsub r (Fin (risk_free_rate / 252))) sr"

definition sharpe_of :: "series \<Rightarrow> fl" where
  "sharpe_of sr =
     (if fne (std_s (excess_returns_of sr)) (Fin 0)
      then fdiv (fmul (Fin (sqrt 252)) (mean_s (excess_returns_of sr)))
                (std_s (excess_returns_of sr))
      else Fin 0)"

text \<open>\<^verbatim>\<open>TradingStrategy.backtest\<close>. \<^verbatim>\<open>iloc[-1]\<close> raises IndexError on a frame without rows.\<close>

definition backtest_frame :: "real \<Rightarrow> frame \<Rightarrow> frame" where
  "backtest_frame cap f =
     (let pos = position_of (signal f);
          mr = pct_change (price f);
          sr = strategy_return_of pos mr;
          cs = cumulative_of sr
      in f\<lparr> position := pos,
             market_return := Some mr,
             strategy_return := Some sr,
             cumulative_market := Some (cumulative_of mr),
             cumulative_strategy := Some cs,
             portfolio_value := Some (map (fmul (Fin cap)) cs) \<rparr>)"

definition backtest :: "strategy \<Rightarrow> real \<Rightarrow> error + (backtest_result \<times> strategy)" where
  "backtest s cap =
     bindE (generate_signals s) (\<lambda>s1.
       let f = backtest_frame cap (signals s1);
           sr = strategy_return_of (position f) (pct_change (price f));
           cs = cumulative_of sr;
           pv = map (fmul (Fin cap)) cs
       in if pv = [] then Inl IndexError
          else Inr (\<lparr> total_return = fmul (fdiv (fsub (last pv) (Fin cap)) (Fin cap)) (Fin 100),
                      win_rate = win_rate_of sr (signal f),
                      max_drawdown = max_drawdown_of cs,
                      sharpe_ratio = sharpe_of sr,
                      final_value = last pv,
                      total_trades = count_trades (signal f),
                      signals_df = f \<rparr>,
                    s1\<lparr> signals := f \<rparr>))"

subsection \<open>Current signal\<close>

datatype label = BUY | SELL | HOLD

record current_signal =
  cs_signal :: label
  cs_price :: fl
  cs_date :: date

text \<open>\<^verbatim>\<open>signal_map.get(latest_signal, 'HOLD')\<close> with
  \<^verbatim>\<open>signal_map = {1: 'BUY', -1: 'SELL', 0: 'HOLD'}\<close>.\<close>

definition signal_map :: "fl \<Rightarrow> label" where
  "signal_map v =
     (if v = Fin 1 then BUY else if v = Fin (- 1) then SELL
      else if v = Fin 0 then HOLD else HOLD)"

text \<open>\<^verbatim>\<open>get_current_signal\<close>: \<^verbatim>\<open>len(self.signals)\<close> is the number of rows of the frame.\<close>

definition get_current_signal :: "strategy \<Rightarrow> error + (current_signal \<times> strategy)" where
  "get_current_signal s =
     bindE (if length (index (signals s)) = 0 then generate_signals s else Inr s) (\<lambda>s1.
       if signal (signals s1) = [] then Inl IndexError
       else Inr (\<lparr> cs_signal = signal_map (last (signal (signals s1))),
                   cs_price = last (price (signals s1)),
                   cs_date = last (index (signals s1)) \<rparr>,
                 s1))"

section \<open>Evaluation on concrete inputs\<close>

lemmas fl_defs = fsub_def signed_inf_def fgt_def fge_def fne_def fmax_def fmin_def

lemmas pd_defs = bindE_def shift1_def diff_s_def pct_change_def window_at_def rolling_mean_at_def
  rolling_mean_def where_s_def loc_set_def fillna_def replace_s_def cumsum_def cumprod_def
  prep_values_def expanding_max_def dropna_def min_s_def sum_s_def mean_s_def std_s_def

lemmas st_defs = init_frame_def TradingStrategy_init_def rsi_of_rs_def avg_gain_def avg_loss_def
  compute_rsi_def zeros_def sma_raw_def rsi_signal_def combined_raw_def gen_frame_def
  generate_signals_def position_of_def strategy_return_of_def cumulative_of_def backtest_frame_def

section \<open>Basic facts about the column operations\<close>

lemma fadd_NaN [simp]: "fadd a NaN = NaN" "fadd NaN a = NaN"
  by (cases a; simp)+

lemma fsub_NaN [simp]: "fsub a NaN = NaN" "fsub NaN a = NaN"
  by (simp_all add: fsub_def)

lemma fmul_NaN [simp]: "fmul a NaN = NaN" "fmul NaN a = NaN"
  by (cases a; simp)+

lemma fdiv_NaN [simp]: "fdiv a NaN = NaN" "fdiv NaN a = NaN"
  by (cases a; simp)+

lemma fsub_Fin [simp]: "fsub (Fin x) (Fin y) = Fin (x - y)"
  by (simp add: fsub_def)

lemma length_shift1 [simp]: "length (shift1 xs) = length xs"
  by (simp add: shift1_def)

lemma nth_shift1: "t < length xs \<Longrightarrow> shift1 xs ! t = (if t = 0 then NaN else xs ! (t - 1))"
  by (cases t) (simp_all add: shift1_def)

lemma length_pct_change [simp]: "length (pct_change xs) = length xs"
  by (simp add: pct_change_def)

lemma length_diff_s [simp]: "length (diff_s xs) = length xs"
  by (simp add: diff_s_def)

lemma length_cum_from [simp]: "length (cum_from f acc xs) = length xs"
  by (induction xs arbitrary: acc) simp_all

lemma length_position_of [simp]: "length (position_of sg) = length sg"
  by (simp add: position_of_def cumsum_def replace_s_def)

lemma length_strategy_return_of [simp]:
  "length (strategy_return_of pos mr) = min (length pos) (length mr)"
  by (simp add: strategy_return_of_def)

lemma rolling_mean_length: "rolling_mean w xs = Inr ys \<Longrightarrow> length ys = length xs"
  by (auto simp: rolling_mean_def split: if_splits)

lemma compute_rsi_length: "compute_rsi p xs = Inr r \<Longrightarrow> length r = length xs"
  by (auto simp: compute_rsi_def avg_gain_def avg_loss_def bindE_def where_s_def
      split: sum.splits dest!: rolling_mean_length)

lemma gen_frame_price: "gen_frame k f = Inr f' \<Longrightarrow> price f' = price f \<and> index f' = index f"
  by (auto simp: gen_frame_def bindE_def split: kind.splits sum.splits)

lemma length_loc_set [simp]: "length (loc_set ms v xs) = min (length ms) (length xs)"
  by (simp add: loc_set_def)

lemma gen_frame_signal_length:
  "gen_frame k f = Inr f' \<Longrightarrow> length (signal f') = length (price f)"
  by (auto simp: gen_frame_def bindE_def fillna_def sma_raw_def rsi_signal_def combined_raw_def
      zeros_def split: kind.splits sum.splits dest!: rolling_mean_length compute_rsi_length)

lemma pct_change_nth:
  "0 < t \<Longrightarrow> t < length xs \<Longrightarrow> xs ! t = Fin a \<Longrightarrow> xs ! (t - 1) = Fin b \<Longrightarrow>
   pct_change xs ! t = fdiv (Fin (a - b)) (Fin b)"
  by (simp add: pct_change_def nth_shift1 fsub_def signed_inf_def diff_divide_distrib)

lemma cum_from_eq_Nil [simp]: "cum_from f acc xs = [] \<longleftrightarrow> xs = []"
  by (cases xs) simp_all

lemma strategy_return_of_eq_Nil [simp]:
  "strategy_return_of pos mr = [] \<longleftrightarrow> pos = [] \<or> mr = []"
  by (cases pos; cases mr) (simp_all add: strategy_return_of_def shift1_def)

lemma pct_change_eq_Nil [simp]: "pct_change xs = [] \<longleftrightarrow> xs = []"
  by (cases xs) (simp_all add: pct_change_def shift1_def)

lemma position_of_eq_Nil [simp]: "position_of sg = [] \<longleftrightarrow> sg = []"
  by (simp add: position_of_def cumsum_def replace_s_def)

lemma pct_change_first: "xs \<noteq> [] \<Longrightarrow> pct_change xs ! 0 = NaN"
  by (simp add: pct_change_def nth_shift1)


lemma backtest_frame_simps [simp]:
  "price (backtest_frame cap f) = price f"
  "index (backtest_frame cap f) = index f"
  "signal (backtest_frame cap f) = signal f"
  "position (backtest_frame cap f) = position_of (signal f)"
  "market_return (backtest_frame cap f) = Some (pct_change (price f))"
  "strategy_return (backtest_frame cap f)
     = Some (strategy_return_of (position_of (signal f)) (pct_change (price f)))"
  "cumulative_strategy (backtest_frame cap f)
     = Some (cumulative_of (strategy_return_of (position_of (signal f)) (pct_change (price f))))"
  by (simp_all add: backtest_frame_def Let_def)

lemma backtest_InrD:
  assumes "backtest s cap = Inr (res, s')"
  shows "\<exists>f1. gen_frame (kind s) (signals s) = Inr f1
           \<and> signals s' = backtest_frame cap f1
           \<and> signals_df res = backtest_frame cap f1
           \<and> price f1 \<noteq> []
           \<and> win_rate res
               = win_rate_of (strategy_return_of (position_of (signal f1)) (pct_change (price f1)))
                   (signal f1)
           \<and> total_trades res = count_trades (signal f1)
           \<and> sharpe_ratio res
               = sharpe_of (strategy_return_of (position_of (signal f1)) (pct_change (price f1)))
           \<and> max_drawdown res
               = max_drawdown_of
                   (cumulative_of (strategy_return_of (position_of (signal f1)) (pct_change (price f1))))"
proof -
  from assms obtain s1 where g: "generate_signals s = Inr s1"
    by (auto simp: backtest_def bindE_def split: sum.splits)
  then obtain f1 where f1: "gen_frame (kind s) (signals s) = Inr f1" and s1: "s1 = s\<lparr>signals := f1\<rparr>"
    by (auto simp: generate_signals_def bindE_def split: sum.splits)
  have len: "length (signal f1) = length (price f1)"
    using gen_frame_signal_length[OF f1] gen_frame_price[OF f1] by simp
  from assms g s1 len show ?thesis
    by (auto simp: backtest_def bindE_def Let_def f1 cumulative_of_def cumprod_def
        split: if_splits)
qed

lemma nth_loc_set:
  "t < length ms \<Longrightarrow> t < length xs \<Longrightarrow> loc_set ms v xs ! t = (if ms ! t then v else xs ! t)"
  by (simp add: loc_set_def)


lemma flt_irrefl [simp]: "\<not> flt a a"
  by (cases a) simp_all

text \<open>Signal generation fails only on a negative window, and \<^verbatim>\<open>backtest\<close> returns whenever
  it does not fail and the series has a bar.\<close>

lemma generate_signals_isl:
  "isl (generate_signals (TradingStrategy_init d k))
     = (case k of SMA sw lw \<Rightarrow> sw < 0 \<or> lw < 0
        | RSI p os ob \<Rightarrow> p < 0
        | Combined sw lw p os ob \<Rightarrow> sw < 0 \<or> lw < 0 \<or> p < 0)"
  by (simp add: TradingStrategy_init_def generate_signals_def gen_frame_def compute_rsi_def
      avg_gain_def avg_loss_def rolling_mean_def bindE_def split: kind.splits)

lemma backtest_returns:
  assumes "d \<noteq> []" and "\<not> isl (generate_signals (TradingStrategy_init d k))"
  shows "\<exists>res s'. backtest (TradingStrategy_init d k) cap = Inr (res, s')"
proof -
  let ?s = "TradingStrategy_init d k"
  from assms(2) obtain s1 where s1: "generate_signals ?s = Inr s1"
    by (cases "generate_signals ?s") auto
  then obtain f1 where f1: "gen_frame (kind ?s) (signals ?s) = Inr f1" "s1 = ?s\<lparr>signals := f1\<rparr>"
    by (auto simp: generate_signals_def bindE_def split: sum.splits)
  have "price f1 \<noteq> []"
    using gen_frame_price[OF f1(1)] assms(1) by (simp add: TradingStrategy_init_def init_frame_def)
  moreover have "length (signal f1) = length (price f1)"
    using gen_frame_signal_length[OF f1(1)] gen_frame_price[OF f1(1)] by simp
  ultimately have "signal f1 \<noteq> []" by auto
  with \<open>price f1 \<noteq> []\<close> show ?thesis
    by (simp add: backtest_def bindE_def s1 f1(2) Let_def cumulative_of_def cumprod_def)
qed

section \<open>Position of the backtest\<close>

text \<open>
  Claim C1 (the position of \<^verbatim>\<open>backtest\<close> lies in {0, 1} and is never negative). The code
  replaces the value -1 by 0 and sums, so a sell never closes the position and a signal of
  -2 is summed as it is. On the prices 1, 2, 1, 2, 1 the RSI strategy with period 1 and
  thresholds 30 and 70 emits buy, sell, buy and ends with position 2; on the prices 1, 2, 1
  the SMA strategy with windows 1 and 2 emits the signals 0, 1, -2 and ends with position -1.
\<close>

theorem backtest_position_not_long_flat:
  "map_sum id (\<lambda>(r, s). (signal (signals s), position (signals s)))
     (backtest (TradingStrategy_init [(0, 1), (1, 2), (2, 1), (3, 2), (4, 1)] (RSI 1 30 70)) 100000)
   = Inr ([Fin 0, Fin 0, Fin 1, Fin (- 1), Fin 1], [Fin 0, Fin 0, Fin 1, Fin 1, Fin 2])
   \<and> map_sum id (\<lambda>(r, s). (signal (signals s), position (signals s)))
     (backtest (TradingStrategy_init [(0, 1), (1, 2), (2, 1)] (SMA 1 2)) 100000)
   = Inr ([Fin 0, Fin 1, Fin (- 2)], [Fin 0, Fin 1, Fin (- 1)])"
  by (simp add: backtest_def Let_def fl_defs pd_defs st_defs)

section \<open>Returns of the backtest\<close>

text \<open>
  Claim C2: at every bar with a predecessor the strategy return is the position of the
  previous bar times the market return of the bar, the market return being the relative
  change of the price; both returns are undefined at the first bar.
\<close>

theorem backtest_strategy_return_lag:
  assumes "backtest (TradingStrategy_init d k) cap = Inr (res, s')" and "0 < t" and "t < length d"
  shows "\<exists>mr sr. market_return (signals s') = Some mr \<and> strategy_return (signals s') = Some sr
     \<and> length mr = length d \<and> length sr = length d \<and> length (position (signals s')) = length d
     \<and> mr ! t = fdiv (Fin (snd (d ! t) - snd (d ! (t - 1)))) (Fin (snd (d ! (t - 1))))
     \<and> sr ! t = fmul (position (signals s') ! (t - 1)) (mr ! t)
     \<and> mr ! 0 = NaN \<and> sr ! 0 = NaN"
proof -
  let ?s = "TradingStrategy_init d k"
  from backtest_InrD[OF assms(1)] obtain f1 where
    f1: "gen_frame (kind ?s) (signals ?s) = Inr f1" and s': "signals s' = backtest_frame cap f1"
    by blast
  have pr: "price f1 = map Fin (map snd d)"
    using gen_frame_price[OF f1] by (simp add: TradingStrategy_init_def init_frame_def)
  have len: "length (signal f1) = length d"
    using gen_frame_signal_length[OF f1] by (simp add: TradingStrategy_init_def init_frame_def)
  have mr_t: "pct_change (price f1) ! t
      = fdiv (Fin (snd (d ! t) - snd (d ! (t - 1)))) (Fin (snd (d ! (t - 1))))"
    using assms(2,3) by (intro pct_change_nth) (simp_all add: pr)
  have mr_0: "pct_change (price f1) ! 0 = NaN"
    using assms(3) by (cases d) (auto simp: pr intro: pct_change_first)
  have sr_t: "strategy_return_of (position_of (signal f1)) (pct_change (price f1)) ! t
      = fmul (position_of (signal f1) ! (t - 1)) (pct_change (price f1) ! t)"
    using assms(2,3) by (simp add: strategy_return_of_def nth_shift1 len pr)
  have sr_0: "strategy_return_of (position_of (signal f1)) (pct_change (price f1)) ! 0 = NaN"
  proof -
    have "0 < length d" using assms(3) by (cases d) auto
    then show ?thesis by (simp add: strategy_return_of_def nth_shift1 len pr)
  qed
  show ?thesis
    using mr_t mr_0 sr_t sr_0 by (simp add: s' len pr)
qed

text \<open>The statement at the SMA strategy with windows 1 and 2 on the prices 1, 2, 4.\<close>

theorem backtest_strategy_return_lag_witness:
  "\<exists>res s'. backtest (TradingStrategy_init [(0, 1), (1, 2), (2, 4)] (SMA 1 2)) 100000 = Inr (res, s')
     \<and> position (signals s') = [Fin 0, Fin 1, Fin 1]
     \<and> market_return (signals s') = Some [NaN, Fin 1, Fin 1]
     \<and> strategy_return (signals s') = Some [NaN, Fin 0, Fin 1]
     \<and> (\<exists>mr sr. market_return (signals s') = Some mr \<and> strategy_return (signals s') = Some sr
          \<and> sr ! 2 = fmul (position (signals s') ! (2 - 1)) (mr ! 2))"
proof -
  obtain res s' where b:
    "backtest (TradingStrategy_init [(0, 1), (1, 2), (2, 4)] (SMA 1 2)) 100000 = Inr (res, s')"
    by (simp add: backtest_def Let_def fl_defs pd_defs st_defs)
  have v: "position (signals s') = [Fin 0, Fin 1, Fin 1]
     \<and> market_return (signals s') = Some [NaN, Fin 1, Fin 1]
     \<and> strategy_return (signals s') = Some [NaN, Fin 0, Fin 1]"
    using b by (auto simp add: backtest_def Let_def fl_defs pd_defs st_defs)
  from backtest_strategy_return_lag[OF b, of 2] v b show ?thesis
    by auto
qed

section \<open>Range of the signals\<close>

text \<open>
  Claim C3 (every signal of the three variants is -1, 0 or +1). The crossover variants emit
  the difference of a raw state in {-1, 0, +1}, which is -2 or +2 when the state changes
  sign from one bar to the next: the SMA strategy with windows 1 and 2 on the prices
  1, 2, 1 and on 2, 1, 2, and the combined strategy with windows 1 and 2 and RSI period 3 on
  the prices 10, 6, 2, 3, 1.
\<close>

theorem crossover_signal_magnitude_two:
  "map_sum id signal (gen_frame (SMA 1 2) (init_frame [(0, 1), (1, 2), (2, 1)]))
     = Inr [Fin 0, Fin 1, Fin (- 2)]
   \<and> map_sum id signal (gen_frame (SMA 1 2) (init_frame [(0, 2), (1, 1), (2, 2)]))
     = Inr [Fin 0, Fin (- 1), Fin 2]
   \<and> map_sum id signal
       (gen_frame (Combined 1 2 3 30 70) (init_frame [(0, 10), (1, 6), (2, 2), (3, 3), (4, 1)]))
     = Inr [Fin 0, Fin (- 1), Fin 0, Fin 2, Fin (- 2)]"
  by (simp add: fl_defs pd_defs st_defs)

section \<open>Construction\<close>

text \<open>
  Claim C4 as stated (invalid parameters are rejected at construction) fails: the
  constructors accept equal windows, a zero or negative window, a zero period and an
  oversold threshold above the overbought one.
\<close>

theorem constructors_accept_invalid_parameters:
  "SMAStrategy_init [(0, 100)] 5 5 = Inr (TradingStrategy_init [(0, 100)] (SMA 5 5))
   \<and> SMAStrategy_init [(0, 100)] 0 (- 3) = Inr (TradingStrategy_init [(0, 100)] (SMA 0 (- 3)))
   \<and> RSIStrategy_init [(0, 100)] 0 70 30 = Inr (TradingStrategy_init [(0, 100)] (RSI 0 70 30))
   \<and> CombinedStrategy_init [(0, 100)] 200 50 (- 1) 70 30
       = Inr (TradingStrategy_init [(0, 100)] (Combined 200 50 (- 1) 70 30))"
  by (simp add: SMAStrategy_init_def RSIStrategy_init_def CombinedStrategy_init_def)

text \<open>
  Claim C4, amended: no constructor validates its parameters. Construction succeeds for
  every parameter set and stores the parameters unchanged; a parameter is rejected only
  when it is a negative window or period, and only later, when signal generation calls the
  rolling mean.
\<close>

theorem constructors_never_reject:
  "SMAStrategy_init d sw lw = Inr (TradingStrategy_init d (SMA sw lw))
   \<and> RSIStrategy_init d p os ob = Inr (TradingStrategy_init d (RSI p os ob))
   \<and> CombinedStrategy_init d sw lw p os ob = Inr (TradingStrategy_init d (Combined sw lw p os ob))
   \<and> kind (TradingStrategy_init d k) = k
   \<and> isl (generate_signals (TradingStrategy_init d (SMA sw lw))) = (sw < 0 \<or> lw < 0)
   \<and> isl (generate_signals (TradingStrategy_init d (RSI p os ob))) = (p < 0)
   \<and> isl (generate_signals (TradingStrategy_init d (Combined sw lw p os ob)))
       = (sw < 0 \<or> lw < 0 \<or> p < 0)"
  by (simp add: SMAStrategy_init_def RSIStrategy_init_def CombinedStrategy_init_def
      TradingStrategy_init_def generate_signals_def gen_frame_def compute_rsi_def avg_gain_def
      avg_loss_def rolling_mean_def bindE_def)

section \<open>Raw state of the combined strategy\<close>

lemma combined_raw_length:
  "length sm = n \<Longrightarrow> length lm = n \<Longrightarrow> length r = n \<Longrightarrow> length (combined_raw os ob sm lm r) = n"
  by (simp add: combined_raw_def zeros_def)





text \<open>
  At a bar with a bullish SMA condition and an RSI exactly at the overbought threshold the
  sell mask itself does not hold (it compares with \<^verbatim>\<open>>\<close>), so whether a sell is emitted
  there depends on the raw state of the bar before: on the prices 10, 13, 12 with windows 1
  and 3, RSI period 2 and thresholds 30 and 75, bar 2 has the short average 12 above the
  long average 35/3 and an RSI of exactly 75; its raw state is 0 and, the raw state of bar 1
  being -1, the emitted signal is +1.
\<close>

lemma combined_rsi_at_overbought_no_sell:
  "map_sum id (\<lambda>f. (short_ma f, long_ma f, rsi f, signal f))
     (gen_frame (Combined 1 3 2 30 75) (init_frame [(0, 10), (1, 13), (2, 12)]))
   = Inr (Some [Fin 10, Fin 13, Fin 12], Some [NaN, NaN, Fin (35 / 3)],
          Some [NaN, Fin 100, Fin 75], [Fin 0, Fin (- 1), Fin 1])
   \<and> combined_raw 30 75 [Fin 10, Fin 13, Fin 12] [NaN, NaN, Fin (35 / 3)] [NaN, Fin 100, Fin 75]
       = [Fin 0, Fin (- 1), Fin 0]"
  by (simp add: fl_defs pd_defs st_defs)



section \<open>Signals of the RSI strategy\<close>

lemma flt_not_fge: "flt a b \<Longrightarrow> \<not> fge a b"
  by (cases a; cases b) (simp_all add: fge_def)

lemma buy_sell_exclusive:
  "flt c (Fin os) \<Longrightarrow> fge p (Fin os) \<Longrightarrow> fgt c (Fin ob) \<Longrightarrow> fle p (Fin ob) \<Longrightarrow> False"
  by (cases c; cases p) (simp_all add: fge_def fgt_def)

lemma rsi_signal_length [simp]: "length (rsi_signal os ob r) = length r"
  by (simp add: rsi_signal_def zeros_def)

lemma rsi_signal_nth:
  assumes "t < length r"
  shows "rsi_signal os ob r ! t =
     (if fgt (r ! t) (Fin ob) \<and> fle (shift1 r ! t) (Fin ob) then Fin (- 1)
      else if flt (r ! t) (Fin os) \<and> fge (shift1 r ! t) (Fin os) then Fin 1
      else Fin 0)"
  using assms by (simp add: rsi_signal_def zeros_def nth_loc_set)

lemma rsi_signal_buy_iff:
  assumes "t < length r"
  shows "rsi_signal os ob r ! t = Fin 1
     \<longleftrightarrow> 0 < t \<and> flt (r ! t) (Fin os) \<and> fge (r ! (t - 1)) (Fin os)"
proof (cases "t = 0")
  case True
  with assms show ?thesis
    by (simp add: rsi_signal_nth nth_shift1 fge_def)
next
  case False
  with assms show ?thesis
    using buy_sell_exclusive[of "r ! t" os "r ! (t - 1)" ob]
    by (auto simp: rsi_signal_nth nth_shift1)
qed

lemma rsi_signal_sell_iff:
  assumes "t < length r"
  shows "rsi_signal os ob r ! t = Fin (- 1)
     \<longleftrightarrow> 0 < t \<and> fgt (r ! t) (Fin ob) \<and> fle (r ! (t - 1)) (Fin ob)"
proof (cases "t = 0")
  case True
  with assms show ?thesis
    by (simp add: rsi_signal_nth nth_shift1 fge_def)
next
  case False
  with assms show ?thesis
    by (auto simp: rsi_signal_nth nth_shift1)
qed

lemma filter_take_drop_empty:
  assumes "t + n \<le> length xs" and "\<And>j. j < n \<Longrightarrow> \<not> P (xs ! (t + j))"
  shows "filter P (take n (drop t xs)) = []"
proof -
  have "\<not> P x" if "x \<in> set (take n (drop t xs))" for x
  proof -
    from that obtain j where "j < length (take n (drop t xs))" "x = take n (drop t xs) ! j"
      by (auto simp: in_set_conv_nth)
    with assms show ?thesis by simp
  qed
  then show ?thesis by (simp add: filter_empty_conv)
qed

lemma rsi_signal_excursion:
  assumes "t + n \<le> length r" and below: "\<And>j. j < n \<Longrightarrow> flt (r ! (t + j)) (Fin os)"
  shows "length (filter (\<lambda>v. v = Fin 1) (take n (drop t (rsi_signal os ob r))))
     = (if 0 < n \<and> 0 < t \<and> fge (r ! (t - 1)) (Fin os) then 1 else 0)"
proof (cases n)
  case 0
  then show ?thesis by simp
next
  case (Suc m)
  let ?sg = "rsi_signal os ob r"
  have t: "t < length r" using assms(1) Suc by simp
  have split: "take (Suc m) (drop t ?sg) = ?sg ! t # take m (drop (Suc t) ?sg)"
    using t by (simp flip: Cons_nth_drop_Suc)
  have rest: "filter (\<lambda>v. v = Fin 1) (take m (drop (Suc t) ?sg)) = []"
  proof (rule filter_take_drop_empty)
    show "Suc t + m \<le> length ?sg" using assms(1) Suc by simp
  next
    fix j assume j: "j < m"
    have lt: "Suc t + j < length r" using assms(1) Suc j by simp
    have "flt (r ! (t + j)) (Fin os)" using below[of j] j Suc by simp
    then have "\<not> fge (r ! (Suc t + j - 1)) (Fin os)"
      by (simp add: flt_not_fge)
    then show "\<not> ?sg ! (Suc t + j) = Fin 1"
      using rsi_signal_buy_iff[OF lt, of os ob] by simp
  qed
  have first: "?sg ! t = Fin 1 \<longleftrightarrow> 0 < t \<and> fge (r ! (t - 1)) (Fin os)"
    using rsi_signal_buy_iff[OF t, of os ob] below[of 0] Suc by simp
  show ?thesis
    unfolding Suc split using first rest by auto
qed


lemma gen_frame_RSI_D:
  assumes "gen_frame (RSI p os ob) f = Inr f'"
  shows "\<exists>r. compute_rsi p (price f) = Inr r \<and> rsi f' = Some r \<and> signal f' = rsi_signal os ob r"
  using assms by (auto simp: gen_frame_def bindE_def split: sum.splits)

text \<open>
  Claim C6: the RSI strategy emits +1 exactly at a bar whose RSI is below the oversold
  threshold while the RSI of the previous bar was at or above it, and -1 exactly at a bar
  whose RSI is above the overbought threshold while the previous one was at or below it.
  Over a run of bars that all stay below the oversold threshold exactly one +1 is emitted
  when the run is entered from at or above the threshold (and none otherwise), whatever the
  length of the run, five bars included.
\<close>

theorem rsi_signal_edge_triggered:
  assumes "gen_frame (RSI p os ob) (init_frame d) = Inr f" and "t < length d"
  shows "\<exists>r. rsi f = Some r \<and> length r = length d \<and> length (signal f) = length d
     \<and> (signal f ! t = Fin 1 \<longleftrightarrow> 0 < t \<and> flt (r ! t) (Fin os) \<and> fge (r ! (t - 1)) (Fin os))
     \<and> (signal f ! t = Fin (- 1) \<longleftrightarrow> 0 < t \<and> fgt (r ! t) (Fin ob) \<and> fle (r ! (t - 1)) (Fin ob))
     \<and> (\<forall>n. t + n \<le> length d \<longrightarrow> (\<forall>j<n. flt (r ! (t + j)) (Fin os)) \<longrightarrow>
           length (filter (\<lambda>v. v = Fin 1) (take n (drop t (signal f))))
             = (if 0 < n \<and> 0 < t \<and> fge (r ! (t - 1)) (Fin os) then 1 else 0))"
proof -
  from gen_frame_RSI_D[OF assms(1)] obtain r where
    r: "compute_rsi p (price (init_frame d)) = Inr r" "rsi f = Some r"
      "signal f = rsi_signal os ob r"
    by blast
  have len: "length r = length d"
    using compute_rsi_length[OF r(1)] by (simp add: init_frame_def)
  have t: "t < length r" using assms(2) len by simp
  show ?thesis
    using rsi_signal_buy_iff[OF t, of os ob] rsi_signal_sell_iff[OF t, of os ob]
      rsi_signal_excursion[of t _ r os ob]
    by (simp add: r len)
qed

text \<open>The statement at period 1 on the prices 5, 6, 5, 4, 3, 2, 1: the RSI is 100 at bar 1
  and 0 on the five bars after it, and one buy is emitted, at bar 2.\<close>

theorem rsi_signal_edge_triggered_witness:
  "\<exists>f. gen_frame (RSI 1 30 70) (init_frame [(0, 5), (1, 6), (2, 5), (3, 4), (4, 3), (5, 2), (6, 1)])
          = Inr f
     \<and> rsi f = Some [NaN, Fin 100, Fin 0, Fin 0, Fin 0, Fin 0, Fin 0]
     \<and> (2::nat) < length [(0::nat, 5::real), (1, 6), (2, 5), (3, 4), (4, 3), (5, 2), (6, 1)]
     \<and> signal f ! 2 = Fin 1
     \<and> length (filter (\<lambda>v. v = Fin 1) (take 5 (drop 2 (signal f)))) = 1"
proof -
  let ?d = "[(0::nat, 5::real), (1, 6), (2, 5), (3, 4), (4, 3), (5, 2), (6, 1)]"
  obtain f where f: "gen_frame (RSI 1 30 70) (init_frame ?d) = Inr f"
    by (simp add: fl_defs pd_defs st_defs)
  have rv: "rsi f = Some [NaN, Fin 100, Fin 0, Fin 0, Fin 0, Fin 0, Fin 0]"
    using f by (auto simp add: fl_defs pd_defs st_defs)
  have t: "(2::nat) < length ?d" by simp
  from rsi_signal_edge_triggered[OF f t] obtain r where
    r: "rsi f = Some r"
      "signal f ! 2 = Fin 1 \<longleftrightarrow> 0 < (2::nat) \<and> flt (r ! 2) (Fin 30) \<and> fge (r ! (2 - 1)) (Fin 30)"
      "\<forall>n. 2 + n \<le> length ?d \<longrightarrow> (\<forall>j<n. flt (r ! (2 + j)) (Fin 30)) \<longrightarrow>
           length (filter (\<lambda>v. v = Fin 1) (take n (drop 2 (signal f))))
             = (if 0 < n \<and> 0 < (2::nat) \<and> fge (r ! (2 - 1)) (Fin 30) then 1 else 0)"
    by blast
  have req: "r = [NaN, Fin 100, Fin 0, Fin 0, Fin 0, Fin 0, Fin 0]"
    using r(1) rv by simp
  have below: "\<forall>j<5. flt (r ! (2 + j)) (Fin 30)"
    by (simp add: req less_Suc_eq eval_nat_numeral)
  have one: "signal f ! 2 = Fin 1"
    using r(2) by (simp add: req fge_def)
  have cnt: "length (filter (\<lambda>v. v = Fin 1) (take 5 (drop 2 (signal f)))) = 1"
    using r(3)[rule_format, of 5] below by (simp add: req fge_def)
  show ?thesis
    using f rv one cnt by simp
qed

section \<open>RSI with a zero average loss\<close>

lemma foldl_fadd_nonneg:
  assumes "\<forall>x\<in>set xs. \<exists>v. x = Fin v \<and> 0 \<le> v"
  shows "\<exists>s. foldl fadd (Fin a) xs = Fin s \<and> a \<le> s"
  using assms
proof (induction xs arbitrary: a)
  case Nil
  then show ?case by simp
next
  case (Cons x xs)
  then obtain v where v: "x = Fin v" "0 \<le> v" by auto
  from Cons.IH[of "a + v"] Cons.prems obtain s where "foldl fadd (Fin (a + v)) xs = Fin s" "a + v \<le> s"
    by auto
  with v show ?case by auto
qed

lemma rolling_mean_at_nonneg:
  assumes "\<forall>x\<in>set xs. \<exists>v. x = Fin v \<and> 0 \<le> v" and "0 < w" and "w \<le> Suc i"
  shows "\<exists>m. rolling_mean_at w xs i = Fin m \<and> 0 \<le> m"
proof -
  have win: "\<forall>x\<in>set (window_at w xs i). \<exists>v. x = Fin v \<and> 0 \<le> v"
    using assms(1) by (auto simp: window_at_def dest!: in_set_takeD in_set_dropD)
  then have nonan: "NaN \<notin> set (window_at w xs i)" by auto
  from foldl_fadd_nonneg[OF win, of 0] obtain s where
    s: "foldl fadd (Fin 0) (window_at w xs i) = Fin s" "0 \<le> s" by auto
  show ?thesis
    using assms(2,3) nonan s by (simp add: rolling_mean_at_def)
qed

lemma diff_s_entries:
  "\<forall>x\<in>set (diff_s (map Fin ps)). x = NaN \<or> (\<exists>v. x = Fin v)"
proof
  fix x assume "x \<in> set (diff_s (map Fin ps))"
  then obtain i where i: "i < length ps" "x = diff_s (map Fin ps) ! i"
    by (auto simp: in_set_conv_nth)
  then show "x = NaN \<or> (\<exists>v. x = Fin v)"
    by (cases i) (simp_all add: diff_s_def nth_shift1)
qed

lemma gain_entries_nonneg:
  assumes "\<forall>x\<in>set xs. x = NaN \<or> (\<exists>v. x = Fin v)"
  shows "\<forall>x\<in>set (where_s (\<lambda>d. fgt d (Fin 0)) (Fin 0) xs). \<exists>v. x = Fin v \<and> 0 \<le> v"
proof
  fix x assume "x \<in> set (where_s (\<lambda>d. fgt d (Fin 0)) (Fin 0) xs)"
  then have "x \<in> (\<lambda>y. if fgt y (Fin 0) then y else Fin 0) ` set xs"
    by (simp add: where_s_def)
  then obtain y where "y \<in> set xs" "x = (if fgt y (Fin 0) then y else Fin 0)"
    by blast
  with assms show "\<exists>v. x = Fin v \<and> 0 \<le> v"
    by (cases y) (auto simp: fgt_def)
qed

lemma rolling_mean_nth:
  "rolling_mean w xs = Inr ys \<Longrightarrow> t < length xs \<Longrightarrow> ys ! t = rolling_mean_at (nat w) xs t"
  by (auto simp: rolling_mean_def split: if_splits)

lemma rolling_mean_at_complete:
  "rolling_mean_at w xs i \<noteq> NaN \<Longrightarrow> 0 < w \<and> w \<le> Suc i"
  by (auto simp: rolling_mean_at_def split: if_splits)

lemma rsi_of_rs_zero_loss:
  "0 \<le> x \<Longrightarrow> rsi_of_rs (signed_inf x) = (if 0 < x then Fin 100 else NaN)"
  by (simp add: rsi_of_rs_def signed_inf_def)

lemma compute_rsi_D:
  assumes "compute_rsi p pr = Inr r"
  shows "\<exists>g l. avg_gain p pr = Inr g \<and> avg_loss p pr = Inr l \<and> length g = length pr
     \<and> length l = length pr \<and> r = map rsi_of_rs (map2 fdiv g l)"
  using assms
  by (auto simp: compute_rsi_def bindE_def avg_gain_def avg_loss_def where_s_def
      split: sum.splits dest!: rolling_mean_length)

lemma gen_frame_rsi_column:
  assumes "gen_frame k f = Inr f'" and "k = RSI p os ob \<or> k = Combined sw lw p os ob"
  shows "\<exists>r. compute_rsi p (price f) = Inr r \<and> rsi f' = Some r"
  using assms by (auto simp: gen_frame_def bindE_def split: sum.splits)

text \<open>
  Claim C7 as stated (a complete window with an average loss of exactly 0 gives an RSI of
  100) fails when the average gain is 0 as well: on the constant prices 1, 1, 1 with period
  2 both averages are 0 at bars 1 and 2, the ratio is 0/0 and the RSI is not-a-number, in
  the RSI strategy and in the combined one.
\<close>

theorem rsi_undefined_on_constant_prices:
  "avg_gain 2 [Fin 1, Fin 1, Fin 1] = Inr [NaN, Fin 0, Fin 0]
   \<and> avg_loss 2 [Fin 1, Fin 1, Fin 1] = Inr [NaN, Fin 0, Fin 0]
   \<and> map_sum id rsi (gen_frame (RSI 2 30 70) (init_frame [(0, 1), (1, 1), (2, 1)]))
       = Inr (Some [NaN, NaN, NaN])
   \<and> map_sum id rsi (gen_frame (Combined 1 2 2 30 70) (init_frame [(0, 1), (1, 1), (2, 1)]))
       = Inr (Some [NaN, NaN, NaN])"
  by (simp add: fl_defs pd_defs st_defs)

text \<open>
  Claim C7, amended: there is no special case in the code. At a bar where the average loss
  is exactly 0 (so the window is complete: the period is positive and at most the number
  of bars so far), the average gain is a finite number that is not negative; the RSI is
  100 when the average gain is positive (the ratio is infinite and 100/(1 + ratio) is 0)
  and undefined (not-a-number) when the average gain is 0.
\<close>

theorem rsi_zero_average_loss:
  assumes "gen_frame k (init_frame d) = Inr f"
    and "k = RSI p os ob \<or> k = Combined sw lw p os ob"
    and "avg_loss p (price (init_frame d)) = Inr l"
    and "t < length d" and "l ! t = Fin 0"
  shows "\<exists>r g x. rsi f = Some r \<and> avg_gain p (price (init_frame d)) = Inr g
     \<and> 0 < p \<and> p \<le> int t + 1
     \<and> g ! t = Fin x \<and> 0 \<le> x
     \<and> r ! t = (if 0 < x then Fin 100 else NaN)"
proof -
  let ?pr = "price (init_frame d)"
  have lenp: "length ?pr = length d" by (simp add: init_frame_def)
  have prF: "?pr = map Fin (map snd d)" by (simp add: init_frame_def)
  have ge: "\<forall>x\<in>set (where_s (\<lambda>d. fgt d (Fin 0)) (Fin 0) (diff_s ?pr)). \<exists>v. x = Fin v \<and> 0 \<le> v"
    unfolding prF by (rule gain_entries_nonneg[OF diff_s_entries])
  from gen_frame_rsi_column[OF assms(1,2)] obtain r where
    r: "compute_rsi p ?pr = Inr r" "rsi f = Some r" by blast
  from compute_rsi_D[OF r(1)] assms(3) obtain g where
    g: "avg_gain p ?pr = Inr g" "length g = length ?pr" "length l = length ?pr"
       "r = map rsi_of_rs (map2 fdiv g l)"
    by auto
  let ?gs = "where_s (\<lambda>d. fgt d (Fin 0)) (Fin 0) (diff_s ?pr)"
  let ?ls = "map fneg (where_s (\<lambda>d. flt d (Fin 0)) (Fin 0) (diff_s ?pr))"
  have t1: "t < length ?gs" "t < length ?ls"
    using assms(4) lenp by (simp_all add: where_s_def)
  have gt: "g ! t = rolling_mean_at (nat p) ?gs t"
    using g(1) t1 by (simp add: avg_gain_def rolling_mean_nth)
  have lt: "l ! t = rolling_mean_at (nat p) ?ls t"
    using assms(3) t1 by (simp add: avg_loss_def rolling_mean_nth)
  have pnn: "0 \<le> p"
    using g(1) by (auto simp: avg_gain_def rolling_mean_def split: if_splits)
  have compl: "0 < nat p \<and> nat p \<le> Suc t"
    using rolling_mean_at_complete[of "nat p" ?ls t] lt assms(5) by simp
  then have pw: "0 < p" "p \<le> int t + 1" by linarith+
  from rolling_mean_at_nonneg[OF ge, of "nat p" t] compl
  have "\<exists>x. g ! t = Fin x \<and> 0 \<le> x"
    by (simp add: gt)
  then obtain x where x: "g ! t = Fin x" "0 \<le> x" by blast
  have "r ! t = rsi_of_rs (fdiv (g ! t) (l ! t))"
    using g(2,3,4) assms(4) lenp by simp
  then have "r ! t = (if 0 < x then Fin 100 else NaN)"
    using x assms(5) by (simp add: rsi_of_rs_zero_loss)
  with r(2) g(1) pw x show ?thesis by auto
qed


text \<open>The statement at bar 1 of the rising prices 1, 2, 3 with period 2.\<close>

theorem rsi_zero_average_loss_witness:
  "\<exists>f l. gen_frame (RSI 2 30 70) (init_frame [(0, 1), (1, 2), (2, 3)]) = Inr f
     \<and> avg_loss 2 (price (init_frame [(0, 1), (1, 2), (2, 3)])) = Inr l
     \<and> (1::nat) < length [(0::nat, 1::real), (1, 2), (2, 3)] \<and> l ! 1 = Fin 0
     \<and> avg_gain 2 (price (init_frame [(0, 1), (1, 2), (2, 3)])) = Inr [NaN, Fin (1 / 2), Fin 1]
     \<and> (\<exists>r. rsi f = Some r \<and> r ! 1 = Fin 100)"
proof -
  let ?d = "[(0::nat, 1::real), (1, 2), (2, 3)]"
  obtain f where f: "gen_frame (RSI 2 30 70) (init_frame ?d) = Inr f"
    by (simp add: fl_defs pd_defs st_defs)
  have k: "RSI 2 30 70 = RSI 2 30 70 \<or> RSI 2 30 70 = Combined 0 0 2 30 70" by simp
  have l: "avg_loss 2 (price (init_frame ?d)) = Inr [NaN, Fin 0, Fin 0]"
    by (simp add: fl_defs pd_defs st_defs)
  have g: "avg_gain 2 (price (init_frame ?d)) = Inr [NaN, Fin (1 / 2), Fin 1]"
    by (simp add: fl_defs pd_defs st_defs)
  have t: "(1::nat) < length ?d" by simp
  have z: "[NaN, Fin 0, Fin 0] ! 1 = Fin 0" by simp
  from rsi_zero_average_loss[OF f k l t z] g have "\<exists>r. rsi f = Some r \<and> r ! 1 = Fin 100"
    by auto
  with f l g show ?thesis by simp
qed

section \<open>Series of finite values\<close>

lemma all_Fin_map:
  "(\<forall>x\<in>set xs. \<exists>v. x = Fin v) \<Longrightarrow> \<exists>ys. xs = map Fin ys"
proof (induction xs)
  case Nil
  then show ?case by simp
next
  case (Cons x xs)
  then obtain v ys where "x = Fin v" "xs = map Fin ys" by auto
  then have "x # xs = map Fin (v # ys)" by simp
  then show ?case by (rule exI)
qed

lemma cumsum_Fin:
  "\<exists>qs. cum_from fadd (Fin a) (map Fin zs) = map Fin qs \<and> length qs = length zs
     \<and> (zs \<noteq> [] \<longrightarrow> hd qs = a + hd zs)"
proof (induction zs arbitrary: a)
  case Nil
  then show ?case by simp
next
  case (Cons z zs)
  from Cons[of "a + z"] obtain qs where
    "cum_from fadd (Fin (a + z)) (map Fin zs) = map Fin qs" "length qs = length zs" by blast
  then have "cum_from fadd (Fin a) (map Fin (z # zs)) = map Fin ((a + z) # qs)
     \<and> length ((a + z) # qs) = length (z # zs) \<and> hd ((a + z) # qs) = a + hd (z # zs)"
    by simp
  then show ?case by blast
qed

lemma cumprod_Fin:
  "\<exists>qs. cum_from fmul (Fin a) (map Fin zs) = map Fin qs \<and> length qs = length zs
     \<and> (zs \<noteq> [] \<longrightarrow> hd qs = a * hd zs)"
proof (induction zs arbitrary: a)
  case Nil
  then show ?case by simp
next
  case (Cons z zs)
  from Cons[of "a * z"] obtain qs where
    "cum_from fmul (Fin (a * z)) (map Fin zs) = map Fin qs" "length qs = length zs" by blast
  then have "cum_from fmul (Fin a) (map Fin (z # zs)) = map Fin ((a * z) # qs)
     \<and> length ((a * z) # qs) = length (z # zs) \<and> hd ((a * z) # qs) = a * hd (z # zs)"
    by simp
  then show ?case by blast
qed

lemma position_of_Fin:
  assumes "gs \<noteq> []" and "hd gs = 0"
  shows "\<exists>ps. position_of (map Fin gs) = map Fin ps \<and> length ps = length gs \<and> hd ps = 0"
proof -
  let ?gs' = "map (\<lambda>x. if x = - 1 then 0 else x) gs"
  have rep: "replace_s (Fin (- 1)) (Fin 0) (map Fin gs) = map Fin ?gs'"
    by (simp add: replace_s_def)
  have hd': "hd ?gs' = 0" using assms by (cases gs) auto
  from cumsum_Fin[of 0 ?gs'] obtain ps where
    "cum_from fadd (Fin 0) (map Fin ?gs') = map Fin ps" "length ps = length ?gs'"
    "?gs' \<noteq> [] \<longrightarrow> hd ps = 0 + hd ?gs'"
    by blast
  with assms hd' show ?thesis
    by (auto simp: position_of_def cumsum_def rep)
qed

lemma pct_change_Fin:
  assumes "ps \<noteq> []" and "\<forall>p\<in>set ps. p \<noteq> 0"
  shows "\<exists>ms. pct_change (map Fin ps) = NaN # map Fin ms \<and> Suc (length ms) = length ps"
proof -
  let ?ms = "map (\<lambda>t. (ps ! Suc t - ps ! t) / ps ! t) [0..<length ps - 1]"
  have "pct_change (map Fin ps) = NaN # map Fin ?ms"
  proof (rule nth_equalityI)
    show "length (pct_change (map Fin ps)) = length (NaN # map Fin ?ms)"
      using assms(1) by (cases ps) simp_all
  next
    fix i assume i: "i < length (pct_change (map Fin ps))"
    show "pct_change (map Fin ps) ! i = (NaN # map Fin ?ms) ! i"
    proof (cases i)
      case 0
      then show ?thesis using assms(1) by (simp add: pct_change_first)
    next
      case (Suc j)
      with i have j: "Suc j < length ps" by simp
      then have "ps ! j \<in> set ps" by simp
      with assms(2) have nz: "ps ! j \<noteq> 0" by blast
      have "pct_change (map Fin ps) ! Suc j = fdiv (Fin (ps ! Suc j - ps ! j)) (Fin (ps ! j))"
        using j by (intro pct_change_nth) simp_all
      with nz j Suc show ?thesis by simp
    qed
  qed
  moreover have "Suc (length ?ms) = length ps" using assms(1) by (cases ps) simp_all
  ultimately show ?thesis by blast
qed

lemma map2_fmul_Fin:
  "map2 fmul (map Fin xs) (map Fin ys) = map Fin (map2 (\<lambda>p m. p * m) xs ys)"
proof (induction xs arbitrary: ys)
  case Nil
  then show ?case by simp
next
  case (Cons x xs)
  then show ?case by (cases ys) simp_all
qed

lemma strategy_return_of_Fin:
  assumes "length ps = Suc (length ms)" and "ms \<noteq> []" and "hd ps = 0"
  shows "\<exists>rs. strategy_return_of (map Fin ps) (NaN # map Fin ms) = NaN # map Fin rs
     \<and> length rs = length ms \<and> hd rs = 0"
proof -
  let ?rs = "map2 (\<lambda>p m. p * m) (butlast ps) ms"
  have sh: "shift1 (map Fin ps) = NaN # map Fin (butlast ps)"
    using assms(1) by (cases ps rule: rev_cases) (simp_all add: shift1_def)
  have lb: "length (butlast ps) = length ms" using assms(1) by simp
  have "map2 fmul (map Fin (butlast ps)) (map Fin ms) = map Fin ?rs"
    by (rule map2_fmul_Fin)
  then have eq: "strategy_return_of (map Fin ps) (NaN # map Fin ms) = NaN # map Fin ?rs"
    by (simp add: strategy_return_of_def sh)
  have hd0: "hd ?rs = 0"
    using assms by (cases ps; cases ms) (auto split: if_splits)
  have "length ?rs = length ms" using lb by simp
  with eq hd0 have "strategy_return_of (map Fin ps) (NaN # map Fin ms) = NaN # map Fin ?rs
     \<and> length ?rs = length ms \<and> hd ?rs = 0"
    by blast
  then show ?thesis by (rule exI)
qed


lemma all_Fin_hd:
  assumes "\<forall>x\<in>set xs. \<exists>v. x = Fin v" and "xs \<noteq> []" and "xs ! 0 = Fin 0"
  shows "\<exists>gs. xs = map Fin gs \<and> length gs = length xs \<and> hd gs = 0"
proof -
  from all_Fin_map[OF assms(1)] obtain gs where gs: "xs = map Fin gs" by blast
  with assms(2,3) have "hd gs = 0" by (cases gs) auto
  with gs show ?thesis by auto
qed

lemma set_loc_set: "x \<in> set (loc_set ms v xs) \<Longrightarrow> x = v \<or> x \<in> set xs"
  by (auto simp: loc_set_def dest: set_zip_rightD split: if_splits)

lemma fillna_diff_Fin:
  assumes "\<forall>x\<in>set raw. \<exists>v. x = Fin v" and "raw \<noteq> []"
  shows "\<exists>gs. fillna (Fin 0) (diff_s raw) = map Fin gs \<and> length gs = length raw \<and> hd gs = 0"
proof -
  from all_Fin_map[OF assms(1)] obtain rs where rs: "raw = map Fin rs" by blast
  let ?sg = "fillna (Fin 0) (diff_s raw)"
  have len: "length ?sg = length raw" by (simp add: fillna_def)
  have fin: "\<forall>x\<in>set ?sg. \<exists>v. x = Fin v"
    using diff_s_entries[of rs] by (auto simp: fillna_def rs)
  have "0 < length raw" using assms(2) by simp
  then have "?sg ! 0 = Fin 0"
    by (simp add: fillna_def diff_s_def nth_shift1)
  from all_Fin_hd[OF fin _ this] assms(2) len show ?thesis
    by (cases raw) (auto simp: fillna_def diff_s_def shift1_def)
qed

lemma gen_frame_signal_Fin:
  assumes "gen_frame k f = Inr f'" and "price f \<noteq> []"
  shows "\<exists>gs. signal f' = map Fin gs \<and> length gs = length (price f) \<and> hd gs = 0"
proof (cases k)
  case (SMA sw lw)
  with assms(1) obtain sm lm where
    g: "rolling_mean sw (price f) = Inr sm" "rolling_mean lw (price f) = Inr lm"
       "signal f' = fillna (Fin 0) (diff_s (sma_raw sm lm))"
    by (auto simp: gen_frame_def bindE_def split: sum.splits)
  have len: "length (sma_raw sm lm) = length (price f)"
    using rolling_mean_length[OF g(1)] rolling_mean_length[OF g(2)]
    by (simp add: sma_raw_def zeros_def)
  have fin: "\<forall>x\<in>set (sma_raw sm lm). \<exists>v. x = Fin v"
    by (auto simp: sma_raw_def zeros_def dest!: set_loc_set)
  have ne: "sma_raw sm lm \<noteq> []" using len assms(2) by auto
  from fillna_diff_Fin[OF fin ne] len show ?thesis
    by (auto simp: g(3))
next
  case (RSI p os ob)
  with assms(1) obtain r where
    g: "compute_rsi p (price f) = Inr r" "signal f' = rsi_signal os ob r"
    by (auto simp: gen_frame_def bindE_def split: sum.splits)
  have len: "length (rsi_signal os ob r) = length (price f)"
    using compute_rsi_length[OF g(1)] by simp
  have fin: "\<forall>x\<in>set (rsi_signal os ob r). \<exists>v. x = Fin v"
    by (auto simp: rsi_signal_def zeros_def dest!: set_loc_set)
  have "0 < length r" using compute_rsi_length[OF g(1)] assms(2) by simp
  then have z: "rsi_signal os ob r ! 0 = Fin 0"
    by (simp add: rsi_signal_nth nth_shift1 fge_def)
  have "length (rsi_signal os ob r) \<noteq> 0" using len assms(2) by simp
  then have ne: "rsi_signal os ob r \<noteq> []" by (simp only: length_0_conv not_False_eq_True)
  from all_Fin_hd[OF fin ne z] len show ?thesis
    by (auto simp: g(2))
next
  case (Combined sw lw p os ob)
  with assms(1) obtain sm lm r where
    g: "rolling_mean sw (price f) = Inr sm" "rolling_mean lw (price f) = Inr lm"
       "compute_rsi p (price f) = Inr r"
       "signal f' = fillna (Fin 0) (diff_s (combined_raw os ob sm lm r))"
    by (auto simp: gen_frame_def bindE_def split: sum.splits)
  have len: "length (combined_raw os ob sm lm r) = length (price f)"
    using rolling_mean_length[OF g(1)] rolling_mean_length[OF g(2)] compute_rsi_length[OF g(3)]
    by (intro combined_raw_length) simp_all
  have fin: "\<forall>x\<in>set (combined_raw os ob sm lm r). \<exists>v. x = Fin v"
    by (auto simp: combined_raw_def zeros_def dest!: set_loc_set)
  have ne: "combined_raw os ob sm lm r \<noteq> []" using len assms(2) by auto
  from fillna_diff_Fin[OF fin ne] len show ?thesis
    by (auto simp: g(4))
qed





text \<open>The strategy returns of a backtest on prices without a zero: undefined at bar 0, finite
  after it, and 0 at bar 1 (no position is held at bar 0).\<close>

lemma strategy_return_finite:
  assumes "gen_frame k (init_frame d) = Inr f1" and "2 \<le> length d" and "\<forall>p\<in>set d. snd p \<noteq> 0"
  shows "\<exists>rs. strategy_return_of (position_of (signal f1)) (pct_change (price f1))
             = NaN # map Fin rs
     \<and> Suc (length rs) = length d \<and> hd rs = 0"
proof -
  have pr0: "price (init_frame d) = map Fin (map snd d)"
    by (simp add: init_frame_def)
  have pr: "price f1 = map Fin (map snd d)"
    using gen_frame_price[OF assms(1)] pr0 by simp
  have dne: "d \<noteq> []" using assms(2) by auto
  have pne: "price (init_frame d) \<noteq> []" using dne by (simp add: pr0)
  from gen_frame_signal_Fin[OF assms(1) pne] obtain gs where
    gs: "signal f1 = map Fin gs" "length gs = length d" "hd gs = 0"
    by (auto simp: pr0)
  have gne: "gs \<noteq> []" using gs(2) dne by auto
  from position_of_Fin[OF gne gs(3)] obtain ps where
    ps: "position_of (map Fin gs) = map Fin ps" "length ps = length gs" "hd ps = 0"
    by blast
  have "\<forall>p\<in>set (map snd d). p \<noteq> 0" using assms(3) by auto
  from pct_change_Fin[OF _ this] dne obtain ms where
    ms: "pct_change (map Fin (map snd d)) = NaN # map Fin ms" "Suc (length ms) = length d"
    by auto
  have mne: "ms \<noteq> []" using ms(2) assms(2) by auto
  have lps: "length ps = Suc (length ms)" using ps(2) gs(2) ms(2) by simp
  from strategy_return_of_Fin[OF lps mne ps(3)] obtain rs where
    rs: "strategy_return_of (map Fin ps) (NaN # map Fin ms) = NaN # map Fin rs"
      "length rs = length ms" "hd rs = 0"
    by blast
  have "strategy_return_of (position_of (signal f1)) (pct_change (price f1)) = NaN # map Fin rs"
    by (simp only: gs(1) ps(1) pr ms(1) rs(1))
  moreover have "Suc (length rs) = length d" using rs(2) ms(2) by simp
  ultimately show ?thesis using rs(3) by blast
qed


lemma strategy_return_single_bar:
  assumes "gen_frame k (init_frame [x]) = Inr f1"
  shows "strategy_return_of (position_of (signal f1)) (pct_change (price f1)) = [NaN]"
proof -
  have pr: "price f1 = [Fin (snd x)]"
    using gen_frame_price[OF assms] by (simp add: init_frame_def)
  have "length (position_of (signal f1)) = 1"
    using gen_frame_signal_length[OF assms] by (simp add: init_frame_def)
  then obtain q where q: "position_of (signal f1) = [q]"
    by (cases "position_of (signal f1)") auto
  show ?thesis
    by (simp add: q pr strategy_return_of_def shift1_def pct_change_def)
qed

section \<open>Win rate and Sharpe ratio\<close>












section \<open>Maximum drawdown\<close>

text \<open>
  The running maximum (\<^verbatim>\<open>expanding().max()\<close>) at a bar is the largest finite value up to and
  including the bar, and is missing when there is none.
\<close>

lemma prep_values_Fin [simp]: "prep_values (map Fin xs) = map Fin xs"
  by (simp add: prep_values_def)

lemma prep_values_Cons: "prep_values (x # xs)
    = (if x = PInf then NaN else if x = NInf then NaN else x) # prep_values xs"
  by (simp add: prep_values_def)

lemma prep_values_entries: "\<forall>x\<in>set (prep_values xs). x = NaN \<or> (\<exists>v. x = Fin v)"
proof
  fix x assume "x \<in> set (prep_values xs)"
  then have "x \<in> (\<lambda>y. if y = PInf then NaN else if y = NInf then NaN else y) ` set xs"
    by (simp add: prep_values_def)
  then obtain y where "x = (if y = PInf then NaN else if y = NInf then NaN else y)"
    by blast
  then show "x = NaN \<or> (\<exists>v. x = Fin v)" by (cases y) auto
qed

lemma finite_Fin_values [simp]: "finite {x. Fin x \<in> set xs}"
proof -
  have "{x. Fin x \<in> set xs} = Fin -` set xs" by auto
  moreover have "finite (Fin -` set xs)"
    by (rule finite_vimageI) (auto simp: inj_on_def)
  ultimately show ?thesis by simp
qed

lemma Fin_values_prep: "{x. Fin x \<in> set (take n (prep_values xs))} = {x. Fin x \<in> set (take n xs)}"
proof -
  have "take n (prep_values xs) = prep_values (take n xs)"
    by (simp add: prep_values_def take_map)
  moreover have "Fin x \<in> set (prep_values ys) \<longleftrightarrow> Fin x \<in> set ys" for x ys
    by (induction ys) (auto simp: prep_values_def)
  ultimately show ?thesis by simp
qed

lemma Max_insert_max:
  assumes "finite T"
  shows "Max (insert (max a z) T) = Max (insert a (insert z T))"
proof (cases "T = {}")
  case True
  then show ?thesis by (simp add: max.commute)
next
  case False
  with assms show ?thesis by (simp add: max.assoc)
qed

lemma expanding_max_from_NaN_spec:
  assumes "\<forall>x\<in>set ys. x = NaN \<or> (\<exists>v. x = Fin v)" and "t < length ys"
  shows "expanding_max_from (Fin a) ys ! t
           = Fin (Max (insert a {x. Fin x \<in> set (take (Suc t) ys)}))
     \<and> expanding_max_from NaN ys ! t
           = (if {x. Fin x \<in> set (take (Suc t) ys)} = {} then NaN
              else Fin (Max {x. Fin x \<in> set (take (Suc t) ys)}))"
  using assms
proof (induction ys arbitrary: a t)
  case Nil
  then show ?case by simp
next
  case (Cons y ys)
  have rest: "\<forall>x\<in>set ys. x = NaN \<or> (\<exists>v. x = Fin v)"
    using Cons.prems(1) by simp
  note ih = Cons.IH[OF rest]
  from Cons.prems(1) consider "y = NaN" | z where "y = Fin z" by auto
  then show ?case
  proof cases
    case 1
    show ?thesis
    proof (cases t)
      case 0
      then show ?thesis using 1 by simp
    next
      case (Suc t')
      with Cons.prems(2) have t': "t' < length ys" by simp
      have "{x. Fin x \<in> set (take (Suc t) (y # ys))} = {x. Fin x \<in> set (take (Suc t') ys)}"
        using 1 Suc by auto
      with ih[OF t', of a] show ?thesis
        using 1 Suc by simp
    qed
  next
    case 2
    have fm: "fmax (Fin a) (Fin z) = Fin (max a z)" by (simp add: fmax_def max_def)
    show ?thesis
    proof (cases t)
      case 0
      have "{x. Fin x \<in> set (take (Suc 0) (y # ys))} = {z}" using 2 by auto
      then show ?thesis using 2 0 by (simp add: fm max.commute)
    next
      case (Suc t')
      with Cons.prems(2) have t': "t' < length ys" by simp
      let ?T = "{x. Fin x \<in> set (take (Suc t') ys)}"
      have T: "{x. Fin x \<in> set (take (Suc t) (y # ys))} = insert z ?T"
        using 2 Suc by auto
      have M: "Max (insert (max a z) ?T) = Max (insert a (insert z ?T))"
        by (rule Max_insert_max) simp
      have s1: "expanding_max_from (Fin a) (y # ys) ! t = expanding_max_from (Fin (max a z)) ys ! t'"
        using 2 Suc by (simp add: fm)
      have s2: "expanding_max_from NaN (y # ys) ! t = expanding_max_from (Fin z) ys ! t'"
        using 2 Suc by simp
      have A: "expanding_max_from (Fin a) (y # ys) ! t
           = Fin (Max (insert a {x. Fin x \<in> set (take (Suc t) (y # ys))}))"
        unfolding s1 T using ih[OF t', of "max a z", THEN conjunct1] by (simp only: M)
      have ne: "insert z ?T \<noteq> {}" by simp
      have B: "expanding_max_from NaN (y # ys) ! t
           = (if {x. Fin x \<in> set (take (Suc t) (y # ys))} = {} then NaN
              else Fin (Max {x. Fin x \<in> set (take (Suc t) (y # ys))}))"
        unfolding s2 T using ih[OF t', of z, THEN conjunct1] ne by (simp only: if_False)
      from A B show ?thesis by (rule conjI)
    qed
  qed
qed

lemma expanding_max_spec:
  assumes "t < length cs"
  shows "expanding_max cs ! t
           = (if {x. Fin x \<in> set (take (Suc t) cs)} = {} then NaN
              else Fin (Max {x. Fin x \<in> set (take (Suc t) cs)}))"
proof -
  have "t < length (prep_values cs)" using assms by (simp add: prep_values_def)
  from expanding_max_from_NaN_spec[OF prep_values_entries this, THEN conjunct2]
  show ?thesis by (simp add: expanding_max_def Fin_values_prep)
qed

text \<open>
  The minimum of a series (\<^verbatim>\<open>min()\<close>) is its least defined value, and not-a-number when no
  value is defined.
\<close>

lemma fle_trans: "fle a b \<Longrightarrow> fle b c \<Longrightarrow> fle a c"
  by (cases a; cases b; cases c) simp_all

lemma fle_refl: "a \<noteq> NaN \<Longrightarrow> fle a a"
  by (cases a) simp_all

lemma fmin_cases:
  assumes "a \<noteq> NaN" and "b \<noteq> NaN"
  shows "(fmin a b = a \<or> fmin a b = b) \<and> fle (fmin a b) a \<and> fle (fmin a b) b"
  using assms by (cases a; cases b) (simp_all add: fmin_def)

lemma foldl_fmin_least:
  assumes "NaN \<notin> set (v # vs)"
  shows "foldl fmin v vs \<in> set (v # vs) \<and> (\<forall>w\<in>set (v # vs). fle (foldl fmin v vs) w)"
  using assms
proof (induction vs arbitrary: v)
  case Nil
  then show ?case by (simp add: fle_refl)
next
  case (Cons x vs)
  then have nn: "v \<noteq> NaN" "x \<noteq> NaN" "NaN \<notin> set vs" by auto
  note fc = fmin_cases[OF nn(1,2)]
  from fc nn have "NaN \<notin> set (fmin v x # vs)" by auto
  from Cons.IH[OF this] have
    r: "foldl fmin (fmin v x) vs \<in> set (fmin v x # vs)"
       "\<forall>w\<in>set (fmin v x # vs). fle (foldl fmin (fmin v x) vs) w"
    by simp_all
  from r(2) have r0: "fle (foldl fmin (fmin v x) vs) (fmin v x)" by simp
  have "fle (foldl fmin (fmin v x) vs) v" "fle (foldl fmin (fmin v x) vs) x"
    using fle_trans[OF r0] fc by blast+
  moreover have "foldl fmin (fmin v x) vs \<in> set (v # x # vs)"
    using r(1) fc by auto
  ultimately show ?case using r(2) by simp
qed

lemma min_s_spec:
  "(dropna xs = [] \<longrightarrow> min_s xs = NaN)
   \<and> (dropna xs \<noteq> [] \<longrightarrow>
        min_s xs \<in> set (dropna xs) \<and> (\<forall>w\<in>set (dropna xs). fle (min_s xs) w))"
proof (cases "dropna xs")
  case Nil
  then show ?thesis by (simp add: min_s_def)
next
  case (Cons v vs)
  have "NaN \<notin> set (dropna xs)" by (simp add: dropna_def)
  then have "NaN \<notin> set (v # vs)" by (simp add: Cons)
  from foldl_fmin_least[OF this] show ?thesis
    by (simp add: min_s_def Cons)
qed

lemma max_drawdown_single_bar: "max_drawdown_of (cumulative_of [NaN]) = NaN"
  by (simp add: max_drawdown_of_def drawdown_of_def cumulative_of_def cumprod_def
      expanding_max_def prep_values_def min_s_def dropna_def)

text \<open>Drawdown of a cumulative return whose values after bar 0 are finite.\<close>

lemma drawdown_from_Fin:
  assumes "0 < a"
  shows "\<exists>ds. map2 (\<lambda>c m. fdiv (fsub c m) m) (map Fin zs) (expanding_max_from (Fin a) (map Fin zs))
            = map Fin ds
     \<and> (\<forall>x\<in>set ds. x \<le> 0) \<and> (sorted (a # zs) \<longrightarrow> (\<forall>x\<in>set ds. x = 0))"
  using assms
proof (induction zs arbitrary: a)
  case Nil
  then show ?case by simp
next
  case (Cons z zs)
  let ?m = "max a z"
  have m: "0 < ?m" "z \<le> ?m" using Cons.prems by auto
  have fm: "fmax (Fin a) (Fin z) = Fin ?m" by (simp add: fmax_def max_def)
  from Cons.IH[OF m(1)] obtain ds where ds:
    "map2 (\<lambda>c m. fdiv (fsub c m) m) (map Fin zs) (expanding_max_from (Fin ?m) (map Fin zs))
       = map Fin ds"
    "\<forall>x\<in>set ds. x \<le> 0" "sorted (?m # zs) \<longrightarrow> (\<forall>x\<in>set ds. x = 0)"
    by blast
  let ?d = "(z - ?m) / ?m"
  have hd_le: "?d \<le> 0" using m by (simp add: divide_nonpos_pos)
  have eq: "map2 (\<lambda>c m. fdiv (fsub c m) m) (map Fin (z # zs))
              (expanding_max_from (Fin a) (map Fin (z # zs))) = map Fin (?d # ds)"
    using m(1) ds(1) by (simp add: fm)
  have srt: "\<forall>x\<in>set (?d # ds). x = 0" if "sorted (a # z # zs)"
  proof -
    from that have az: "a \<le> z" and "sorted (z # zs)" by auto
    then have "?m = z" "sorted (?m # zs)" by (simp_all add: max_def)
    with ds(3) show ?thesis by simp
  qed
  have "map2 (\<lambda>c m. fdiv (fsub c m) m) (map Fin (z # zs))
              (expanding_max_from (Fin a) (map Fin (z # zs))) = map Fin (?d # ds)
     \<and> (\<forall>x\<in>set (?d # ds). x \<le> 0)
     \<and> (sorted (a # z # zs) \<longrightarrow> (\<forall>x\<in>set (?d # ds). x = 0))"
    using eq hd_le ds(2) srt by simp
  then show ?case by (rule exI)
qed

lemma foldl_fmin_Fin:
  "\<exists>v. foldl fmin (Fin a) (map Fin ds) = Fin v \<and> v \<le> a \<and> ((\<forall>x\<in>set ds. a \<le> x) \<longrightarrow> v = a)"
proof (induction ds arbitrary: a)
  case Nil
  then show ?case by simp
next
  case (Cons d ds)
  have fm: "fmin (Fin a) (Fin d) = Fin (min a d)" by (simp add: fmin_def min_def)
  from Cons[of "min a d"] obtain v where
    "foldl fmin (Fin (min a d)) (map Fin ds) = Fin v" "v \<le> min a d"
    "(\<forall>x\<in>set ds. min a d \<le> x) \<longrightarrow> v = min a d"
    by blast
  then show ?case by (auto simp: fm min_def split: if_splits)
qed

lemma max_drawdown_of_Fin:
  assumes "0 < y"
  shows "\<exists>v. max_drawdown_of (NaN # Fin y # map Fin ys) = Fin v \<and> v \<le> 0
     \<and> (sorted (y # ys) \<longrightarrow> v = 0)"
proof -
  from drawdown_from_Fin[OF assms, of ys] obtain ds where ds:
    "map2 (\<lambda>c m. fdiv (fsub c m) m) (map Fin ys) (expanding_max_from (Fin y) (map Fin ys))
       = map Fin ds"
    "\<forall>x\<in>set ds. x \<le> 0" "sorted (y # ys) \<longrightarrow> (\<forall>x\<in>set ds. x = 0)"
    by blast
  have dd: "drawdown_of (NaN # Fin y # map Fin ys) = NaN # Fin 0 # map Fin ds"
    using assms ds(1) by (simp add: drawdown_of_def expanding_max_def prep_values_Cons)
  have dn: "dropna (NaN # Fin 0 # map Fin ds) = Fin 0 # map Fin ds"
    by (simp add: dropna_def filter_map comp_def)
  from foldl_fmin_Fin[of 0 ds] obtain v where v:
    "foldl fmin (Fin 0) (map Fin ds) = Fin v" "v \<le> 0" "(\<forall>x\<in>set ds. 0 \<le> x) \<longrightarrow> v = 0"
    by blast
  have "max_drawdown_of (NaN # Fin y # map Fin ys) = Fin (v * 100)"
    unfolding max_drawdown_of_def min_s_def dd dn by (simp add: v(1))
  moreover have "v * 100 \<le> 0" using v(2) by simp
  moreover have "sorted (y # ys) \<longrightarrow> v * 100 = 0" using ds(3) v(3) by auto
  ultimately show ?thesis by blast
qed


lemma cumulative_of_Fin:
  assumes "rs \<noteq> []" and "hd rs = 0"
  shows "\<exists>ys. cumulative_of (NaN # map Fin rs) = NaN # Fin 1 # map Fin ys
     \<and> Suc (length ys) = length rs"
proof -
  let ?zs = "map (\<lambda>r. 1 + r) rs"
  have m: "map (fadd (Fin 1)) (NaN # map Fin rs) = NaN # map Fin ?zs"
    by simp
  from cumprod_Fin[of 1 ?zs] obtain qs where qs:
    "cum_from fmul (Fin 1) (map Fin ?zs) = map Fin qs" "length qs = length ?zs"
    "?zs \<noteq> [] \<longrightarrow> hd qs = 1 * hd ?zs"
    by blast
  from assms qs(2,3) obtain ys where ys: "qs = 1 # ys"
    by (cases qs; cases rs) auto
  have "cumulative_of (NaN # map Fin rs) = NaN # Fin 1 # map Fin ys"
    unfolding cumulative_of_def cumprod_def m using qs(1) ys by simp
  moreover have "Suc (length ys) = length rs" using qs(2) ys by simp
  ultimately show ?thesis by blast
qed

lemma length_cumulative_of [simp]: "length (cumulative_of r) = length r"
  by (simp add: cumulative_of_def cumprod_def)

text \<open>
  Claim C9 as stated (the maximum drawdown is at most 0 for every price series) fails on a
  series of one bar: the only strategy return is undefined, so are the cumulative return,
  the running maximum and the drawdown, and the minimum of no value is not-a-number, which
  is not at most 0. It fails in the same way on the two-bar series of prices 0, 0, whose
  price change 0 / 0 is undefined.
\<close>

theorem max_drawdown_nan_on_single_bar:
  "map_sum id (\<lambda>(r, s). (max_drawdown r, cumulative_strategy (signals s)))
     (backtest (TradingStrategy_init [(0, 100)] (SMA 50 200)) 100000)
   = Inr (NaN, Some [NaN])
   \<and> map_sum id (\<lambda>(r, s). (max_drawdown r, cumulative_strategy (signals s)))
     (backtest (TradingStrategy_init [(0, 0), (1, 0)] (SMA 50 200)) 100000)
   = Inr (NaN, Some [NaN, NaN])
   \<and> \<not> fle NaN (Fin 0)"
  by (simp add: backtest_def Let_def max_drawdown_of_def drawdown_of_def fl_defs pd_defs st_defs)

text \<open>
  Claim C9, amended: whenever the backtest returns, the maximum drawdown is 100 times the
  least defined value over the bars of (cumulative - running maximum) / running maximum, and
  not-a-number when that value is defined at no bar; the running maximum at a bar is the
  largest finite cumulative strategy return up to and including the bar, and is undefined
  when there is none. On a series of one bar the maximum drawdown is not-a-number. On a
  price series of at least two bars without a zero price the maximum drawdown is at most 0,
  and it is 0 when the cumulative strategy return does not decrease from any defined bar to
  the next (bar 0 is always undefined).
\<close>

theorem max_drawdown_nonpositive:
  assumes "backtest (TradingStrategy_init d k) cap = Inr (res, s')"
  shows "\<exists>cs rm dd. cumulative_strategy (signals s') = Some cs \<and> length cs = length d
     \<and> rm = expanding_max cs
     \<and> dd = map2 (\<lambda>c m. fdiv (fsub c m) m) cs rm
     \<and> (\<forall>t<length cs.
           rm ! t = (if {x. Fin x \<in> set (take (Suc t) cs)} = {} then NaN
                     else Fin (Max {x. Fin x \<in> set (take (Suc t) cs)})))
     \<and> max_drawdown res = fmul (min_s dd) (Fin 100)
     \<and> (dropna dd = [] \<longrightarrow> min_s dd = NaN)
     \<and> (dropna dd \<noteq> [] \<longrightarrow>
          min_s dd \<in> set (dropna dd) \<and> (\<forall>w\<in>set (dropna dd). fle (min_s dd) w))
     \<and> (length d = 1 \<longrightarrow> max_drawdown res = NaN)
     \<and> (2 \<le> length d \<and> (\<forall>p\<in>set d. snd p \<noteq> 0) \<longrightarrow>
          fle (max_drawdown res) (Fin 0)
          \<and> ((\<forall>i. 0 < i \<and> Suc i < length cs \<longrightarrow> fle (cs ! i) (cs ! Suc i))
               \<longrightarrow> max_drawdown res = Fin 0))"
proof -
  from backtest_InrD[OF assms] obtain f1 where
    f1: "gen_frame k (init_frame d) = Inr f1" "signals s' = backtest_frame cap f1"
      "max_drawdown res = max_drawdown_of
         (cumulative_of (strategy_return_of (position_of (signal f1)) (pct_change (price f1))))"
    by (auto simp: TradingStrategy_init_def)
  let ?sr = "strategy_return_of (position_of (signal f1)) (pct_change (price f1))"
  let ?cs = "cumulative_of ?sr"
  let ?rm = "expanding_max ?cs"
  let ?dd = "map2 (\<lambda>c m. fdiv (fsub c m) m) ?cs ?rm"
  have c1: "cumulative_strategy (signals s') = Some ?cs"
    by (simp add: f1(2))
  have len: "length ?cs = length d"
    using gen_frame_signal_length[OF f1(1)] gen_frame_price[OF f1(1)]
    by (simp add: init_frame_def)
  have c5: "\<forall>t<length ?cs.
           ?rm ! t = (if {x. Fin x \<in> set (take (Suc t) ?cs)} = {} then NaN
                      else Fin (Max {x. Fin x \<in> set (take (Suc t) ?cs)}))"
    using expanding_max_spec by blast
  have c6: "max_drawdown res = fmul (min_s ?dd) (Fin 100)"
    by (simp add: f1(3) max_drawdown_of_def drawdown_of_def)
  note ms = min_s_spec[of ?dd]
  have c7: "dropna ?dd = [] \<longrightarrow> min_s ?dd = NaN"
    by (rule ms[THEN conjunct1])
  have c8: "dropna ?dd \<noteq> [] \<longrightarrow>
          min_s ?dd \<in> set (dropna ?dd) \<and> (\<forall>w\<in>set (dropna ?dd). fle (min_s ?dd) w)"
    by (rule ms[THEN conjunct2])
  have c9: "length d = 1 \<longrightarrow> max_drawdown res = NaN"
  proof
    assume "length d = 1"
    then obtain x where "d = [x]" by (cases d) auto
    with f1(1) have "?sr = [NaN]" by (simp add: strategy_return_single_bar)
    then show "max_drawdown res = NaN"
      by (simp only: f1(3) max_drawdown_single_bar)
  qed
  have c10: "2 \<le> length d \<and> (\<forall>p\<in>set d. snd p \<noteq> 0) \<longrightarrow>
          fle (max_drawdown res) (Fin 0)
          \<and> ((\<forall>i. 0 < i \<and> Suc i < length ?cs \<longrightarrow> fle (?cs ! i) (?cs ! Suc i))
               \<longrightarrow> max_drawdown res = Fin 0)"
  proof (intro impI, elim conjE)
    assume l2: "2 \<le> length d" and nz: "\<forall>p\<in>set d. snd p \<noteq> 0"
    from strategy_return_finite[OF f1(1) l2 nz] obtain rs where
      rs: "?sr = NaN # map Fin rs" "Suc (length rs) = length d" "hd rs = 0"
      by blast
    have rne: "rs \<noteq> []" using rs(2) l2 by auto
    from cumulative_of_Fin[OF rne rs(3)] obtain ys where
      ys: "cumulative_of (NaN # map Fin rs) = NaN # Fin 1 # map Fin ys"
      by blast
    have cs: "?cs = NaN # Fin 1 # map Fin ys"
      by (simp only: rs(1) ys)
    from max_drawdown_of_Fin[of 1 ys] obtain v where
      v: "max_drawdown_of (NaN # Fin 1 # map Fin ys) = Fin v" "v \<le> 0"
        "sorted (1 # ys) \<longrightarrow> v = 0"
      by auto
    have mono: "sorted (1 # ys)"
      if H: "\<forall>i. 0 < i \<and> Suc i < length ?cs \<longrightarrow> fle (?cs ! i) (?cs ! Suc i)"
    proof -
      have "(1 # ys) ! j \<le> (1 # ys) ! Suc j" if "Suc j < length (1 # ys)" for j
      proof -
        have cs': "?cs = NaN # map Fin (1 # ys)" by (simp add: cs)
        from that have "0 < Suc j \<and> Suc (Suc j) < length ?cs" by (simp add: cs)
        with H have "fle (?cs ! Suc j) (?cs ! Suc (Suc j))" by blast
        moreover have "?cs ! Suc j = Fin ((1 # ys) ! j)"
          "?cs ! Suc (Suc j) = Fin ((1 # ys) ! Suc j)"
          using that unfolding cs' by (simp_all del: list.map)
        ultimately show ?thesis by simp
      qed
      then show ?thesis by (simp only: sorted_iff_nth_Suc) blast
    qed
    have a: "fle (max_drawdown res) (Fin 0)"
      using v(1,2) by (simp add: f1(3) cs)
    have b: "(\<forall>i. 0 < i \<and> Suc i < length ?cs \<longrightarrow> fle (?cs ! i) (?cs ! Suc i))
          \<longrightarrow> max_drawdown res = Fin 0"
      using mono v(1,3) by (auto simp: f1(3) cs)
    from a b show "fle (max_drawdown res) (Fin 0)
          \<and> ((\<forall>i. 0 < i \<and> Suc i < length ?cs \<longrightarrow> fle (?cs ! i) (?cs ! Suc i))
               \<longrightarrow> max_drawdown res = Fin 0)"
      by (rule conjI)
  qed
  note all = conjI[OF c1 conjI[OF len conjI[OF refl conjI[OF refl conjI[OF c5 conjI[OF c6
    conjI[OF c7 conjI[OF c8 conjI[OF c9 c10]]]]]]]]]
  show ?thesis
    by (rule exI[of _ ?cs], rule exI[of _ ?rm], rule exI[of _ ?dd]) (rule all)
qed

text \<open>
  The statement at three inputs. The SMA strategy with windows 1 and 2 on the prices 1, 2, 4
  has the cumulative strategy return undefined, 1, 2, which never decreases: the maximum
  drawdown is 0. On the prices 1, 2, 1, 1 the cumulative strategy return is undefined, 1,
  1/2, 1/2, the running maximum at bar 2 is 1, the drawdown is undefined, 0, -1/2, -1/2,
  whose least value is not the first defined one: the maximum drawdown is -50. On the single
  price 100 no drawdown is defined and the maximum drawdown is not-a-number.
\<close>

theorem max_drawdown_nonpositive_witness:
  "(\<exists>res s' cs. backtest (TradingStrategy_init [(0, 1), (1, 2), (2, 4)] (SMA 1 2)) 100000
        = Inr (res, s')
      \<and> cumulative_strategy (signals s') = Some cs \<and> cs = [NaN, Fin 1, Fin 2]
      \<and> 2 \<le> length [(0::nat, 1::real), (1, 2), (2, 4)]
      \<and> (\<forall>p\<in>set [(0::nat, 1::real), (1, 2), (2, 4)]. snd p \<noteq> 0)
      \<and> (\<forall>i. 0 < i \<and> Suc i < length cs \<longrightarrow> fle (cs ! i) (cs ! Suc i))
      \<and> max_drawdown res = Fin 0)
   \<and> (\<exists>res s' cs dd. backtest (TradingStrategy_init [(0, 1), (1, 2), (2, 1), (3, 1)] (SMA 1 2)) 100000
        = Inr (res, s')
      \<and> cumulative_strategy (signals s') = Some cs \<and> cs = [NaN, Fin 1, Fin (1 / 2), Fin (1 / 2)]
      \<and> 2 < length cs \<and> {x. Fin x \<in> set (take (Suc 2) cs)} = {1, 1 / 2}
      \<and> expanding_max cs ! 2 = Fin 1
      \<and> dd = map2 (\<lambda>c m. fdiv (fsub c m) m) cs (expanding_max cs)
      \<and> dd = [NaN, Fin 0, Fin (- (1 / 2)), Fin (- (1 / 2))]
      \<and> dropna dd \<noteq> [] \<and> Fin (- (1 / 2)) \<in> set (dropna dd)
      \<and> min_s dd = Fin (- (1 / 2))
      \<and> 2 \<le> length [(0::nat, 1::real), (1, 2), (2, 1), (3, 1)]
      \<and> (\<forall>p\<in>set [(0::nat, 1::real), (1, 2), (2, 1), (3, 1)]. snd p \<noteq> 0)
      \<and> fle (max_drawdown res) (Fin 0)
      \<and> max_drawdown res = Fin (- 50))
   \<and> (\<exists>res s' dd. backtest (TradingStrategy_init [(0, 100)] (SMA 50 200)) 100000 = Inr (res, s')
      \<and> length [(0::nat, 100::real)] = 1
      \<and> cumulative_strategy (signals s') = Some [NaN]
      \<and> dd = map2 (\<lambda>c m. fdiv (fsub c m) m) [NaN] (expanding_max [NaN])
      \<and> dropna dd = [] \<and> min_s dd = NaN
      \<and> max_drawdown res = NaN)"
proof (intro conjI)
  let ?d = "[(0::nat, 1::real), (1, 2), (2, 4)]"
  obtain res s' where b: "backtest (TradingStrategy_init ?d (SMA 1 2)) 100000 = Inr (res, s')"
    by (simp add: backtest_def Let_def fl_defs pd_defs st_defs)
  have cq: "cumulative_strategy (signals s') = Some [NaN, Fin 1, Fin 2]"
    using b by (auto simp add: backtest_def Let_def fl_defs pd_defs st_defs)
  from max_drawdown_nonpositive[OF b] obtain cs where
    g: "cumulative_strategy (signals s') = Some cs"
      "2 \<le> length ?d \<and> (\<forall>p\<in>set ?d. snd p \<noteq> 0) \<longrightarrow>
          fle (max_drawdown res) (Fin 0)
          \<and> ((\<forall>i. 0 < i \<and> Suc i < length cs \<longrightarrow> fle (cs ! i) (cs ! Suc i))
               \<longrightarrow> max_drawdown res = Fin 0)"
    by (elim exE conjE)
  have cs: "cs = [NaN, Fin 1, Fin 2]" using g(1) cq by simp
  have l2: "2 \<le> length ?d" by simp
  have nz: "\<forall>p\<in>set ?d. snd p \<noteq> 0" by simp
  have mono: "\<forall>i. 0 < i \<and> Suc i < length cs \<longrightarrow> fle (cs ! i) (cs ! Suc i)"
  proof (intro allI impI)
    fix i assume "0 < i \<and> Suc i < length cs"
    then have "i = 1" by (simp add: cs)
    then show "fle (cs ! i) (cs ! Suc i)" by (simp add: cs)
  qed
  from g(2) l2 nz mono have md: "max_drawdown res = Fin 0" by blast
  note all = conjI[OF b conjI[OF g(1) conjI[OF cs conjI[OF l2 conjI[OF nz conjI[OF mono md]]]]]]
  show "\<exists>res s' cs. backtest (TradingStrategy_init ?d (SMA 1 2)) 100000 = Inr (res, s')
      \<and> cumulative_strategy (signals s') = Some cs \<and> cs = [NaN, Fin 1, Fin 2]
      \<and> 2 \<le> length ?d \<and> (\<forall>p\<in>set ?d. snd p \<noteq> 0)
      \<and> (\<forall>i. 0 < i \<and> Suc i < length cs \<longrightarrow> fle (cs ! i) (cs ! Suc i))
      \<and> max_drawdown res = Fin 0"
    by (rule exI[of _ res], rule exI[of _ s'], rule exI[of _ cs]) (rule all)
next
  let ?d = "[(0::nat, 1::real), (1, 2), (2, 1), (3, 1)]"
  obtain res s' where b: "backtest (TradingStrategy_init ?d (SMA 1 2)) 100000 = Inr (res, s')"
    by (simp add: backtest_def Let_def fl_defs pd_defs st_defs)
  have cq: "cumulative_strategy (signals s') = Some [NaN, Fin 1, Fin (1 / 2), Fin (1 / 2)]"
    using b by (auto simp add: backtest_def Let_def fl_defs pd_defs st_defs)
  from max_drawdown_nonpositive[OF b] obtain cs rm dd where
    g: "cumulative_strategy (signals s') = Some cs"
      "rm = expanding_max cs"
      "dd = map2 (\<lambda>c m. fdiv (fsub c m) m) cs rm"
      "\<forall>t<length cs.
           rm ! t = (if {x. Fin x \<in> set (take (Suc t) cs)} = {} then NaN
                     else Fin (Max {x. Fin x \<in> set (take (Suc t) cs)}))"
      "max_drawdown res = fmul (min_s dd) (Fin 100)"
      "dropna dd \<noteq> [] \<longrightarrow>
          min_s dd \<in> set (dropna dd) \<and> (\<forall>w\<in>set (dropna dd). fle (min_s dd) w)"
      "2 \<le> length ?d \<and> (\<forall>p\<in>set ?d. snd p \<noteq> 0) \<longrightarrow>
          fle (max_drawdown res) (Fin 0)
          \<and> ((\<forall>i. 0 < i \<and> Suc i < length cs \<longrightarrow> fle (cs ! i) (cs ! Suc i))
               \<longrightarrow> max_drawdown res = Fin 0)"
    by (elim exE conjE)
  have cs: "cs = [NaN, Fin 1, Fin (1 / 2), Fin (1 / 2)]" using g(1) cq by simp
  have t2: "2 < length cs" by (simp add: cs)
  have st: "{x. Fin x \<in> set (take (Suc 2) cs)} = {1, 1 / 2}"
    by (auto simp add: cs numeral_2_eq_2)
  have rm2: "expanding_max cs ! 2 = Fin 1"
    using g(4)[rule_format, OF t2] unfolding st g(2) by simp
  have dd0: "dd = map2 (\<lambda>c m. fdiv (fsub c m) m) cs (expanding_max cs)"
    using g(3) g(2) by simp
  have dd: "dd = [NaN, Fin 0, Fin (- (1 / 2)), Fin (- (1 / 2))]"
    unfolding dd0 cs by (simp add: fl_defs pd_defs)
  have dn: "dropna dd \<noteq> []" by (simp add: dd dropna_def)
  have mem: "Fin (- (1 / 2)) \<in> set (dropna dd)" by (simp add: dd dropna_def)
  from g(6) dn have m1: "min_s dd \<in> set (dropna dd)"
    and m2: "\<forall>w\<in>set (dropna dd). fle (min_s dd) w" by blast+
  from m2 mem have le: "fle (min_s dd) (Fin (- (1 / 2)))" by blast
  from m1 have "min_s dd = Fin 0 \<or> min_s dd = Fin (- (1 / 2))"
    by (auto simp add: dd dropna_def)
  with le have ms: "min_s dd = Fin (- (1 / 2))" by auto
  have l2: "2 \<le> length ?d" by simp
  have nz: "\<forall>p\<in>set ?d. snd p \<noteq> 0" by simp
  from g(7) l2 nz have le0: "fle (max_drawdown res) (Fin 0)" by blast
  have md: "max_drawdown res = Fin (- 50)" using g(5) by (simp add: ms)
  note all = conjI[OF b conjI[OF g(1) conjI[OF cs conjI[OF t2 conjI[OF st conjI[OF rm2
    conjI[OF dd0 conjI[OF dd conjI[OF dn conjI[OF mem conjI[OF ms conjI[OF l2 conjI[OF nz
    conjI[OF le0 md]]]]]]]]]]]]]]
  show "\<exists>res s' cs dd. backtest (TradingStrategy_init ?d (SMA 1 2)) 100000 = Inr (res, s')
      \<and> cumulative_strategy (signals s') = Some cs \<and> cs = [NaN, Fin 1, Fin (1 / 2), Fin (1 / 2)]
      \<and> 2 < length cs \<and> {x. Fin x \<in> set (take (Suc 2) cs)} = {1, 1 / 2}
      \<and> expanding_max cs ! 2 = Fin 1
      \<and> dd = map2 (\<lambda>c m. fdiv (fsub c m) m) cs (expanding_max cs)
      \<and> dd = [NaN, Fin 0, Fin (- (1 / 2)), Fin (- (1 / 2))]
      \<and> dropna dd \<noteq> [] \<and> Fin (- (1 / 2)) \<in> set (dropna dd)
      \<and> min_s dd = Fin (- (1 / 2))
      \<and> 2 \<le> length ?d \<and> (\<forall>p\<in>set ?d. snd p \<noteq> 0)
      \<and> fle (max_drawdown res) (Fin 0)
      \<and> max_drawdown res = Fin (- 50)"
    by (rule exI[of _ res], rule exI[of _ s'], rule exI[of _ cs], rule exI[of _ dd]) (rule all)
next
  let ?d = "[(0::nat, 100::real)]"
  obtain res s' where b: "backtest (TradingStrategy_init ?d (SMA 50 200)) 100000 = Inr (res, s')"
    by (simp add: backtest_def Let_def fl_defs pd_defs st_defs)
  have cq: "cumulative_strategy (signals s') = Some [NaN]"
    using b by (auto simp add: backtest_def Let_def fl_defs pd_defs st_defs)
  from max_drawdown_nonpositive[OF b] obtain cs rm dd where
    g: "cumulative_strategy (signals s') = Some cs"
      "rm = expanding_max cs"
      "dd = map2 (\<lambda>c m. fdiv (fsub c m) m) cs rm"
      "dropna dd = [] \<longrightarrow> min_s dd = NaN"
      "length ?d = 1 \<longrightarrow> max_drawdown res = NaN"
    by (elim exE conjE)
  have cs: "cs = [NaN]" using g(1) cq by simp
  have l1: "length ?d = 1" by simp
  have dd0: "dd = map2 (\<lambda>c m. fdiv (fsub c m) m) [NaN] (expanding_max [NaN])"
    using g(3) g(2) cs by simp
  have dn: "dropna dd = []" unfolding dd0 by (simp add: fl_defs pd_defs)
  from g(4) dn have ms: "min_s dd = NaN" by blast
  from g(5) l1 have md: "max_drawdown res = NaN" by blast
  note all = conjI[OF b conjI[OF l1 conjI[OF cq conjI[OF dd0 conjI[OF dn conjI[OF ms md]]]]]]
  show "\<exists>res s' dd. backtest (TradingStrategy_init ?d (SMA 50 200)) 100000 = Inr (res, s')
      \<and> length ?d = 1
      \<and> cumulative_strategy (signals s') = Some [NaN]
      \<and> dd = map2 (\<lambda>c m. fdiv (fsub c m) m) [NaN] (expanding_max [NaN])
      \<and> dropna dd = [] \<and> min_s dd = NaN
      \<and> max_drawdown res = NaN"
    by (rule exI[of _ res], rule exI[of _ s'], rule exI[of _ dd]) (rule all)
qed

section \<open>Current signal\<close>

text \<open>
  Claim C10 (\<^verbatim>\<open>get_current_signal\<close> generates the signals first when they have not been
  generated). The guard tests the number of rows of the frame, which is the number of
  bars, so on a series with bars nothing is generated: a fresh RSI strategy on the prices
  1, 2, 1 reports HOLD from the constant column of the constructor and is left unchanged,
  while the generated signal of the last bar is a buy.
\<close>

theorem get_current_signal_skips_generation:
  "map_sum id (\<lambda>(c, s). (cs_signal c, s))
     (get_current_signal (TradingStrategy_init [(0, 1), (1, 2), (2, 1)] (RSI 1 30 70)))
     = Inr (HOLD, TradingStrategy_init [(0, 1), (1, 2), (2, 1)] (RSI 1 30 70))
   \<and> map_sum id (\<lambda>s. signal_map (last (signal (signals s))))
     (generate_signals (TradingStrategy_init [(0, 1), (1, 2), (2, 1)] (RSI 1 30 70)))
     = Inr BUY"
  by (simp add: get_current_signal_def signal_map_def fl_defs pd_defs st_defs)

end
